theory Spec2Isabelle
  imports Main
begin

section \<open>Go types as seen through reflection\<close>

text \<open>
  The router classifies callables and option records by inspecting \<^verbatim>\<open>reflect.Type\<close>
  values. A type is modelled by its structure; a defined (named) type keeps its name
  and its underlying type, so that type identity (\<^verbatim>\<open>typ == typHandler\<close>) is equality
  of the model and \<^verbatim>\<open>Kind()\<close>, \<^verbatim>\<open>Elem()\<close>, \<^verbatim>\<open>NumIn()\<close> look through the name.
  Interface types are identified by their name. A struct field records whether it is
  exported (\<^verbatim>\<open>PkgPath == ""\<close>). Recursive type declarations
  (\<^verbatim>\<open>type T []T\<close>) have no finite description and are outside the model. A variadic
  parameter appears as its slice type, as \<^verbatim>\<open>In(i)\<close> reports it.
\<close>

datatype basic =
    KBool
  | KInt | KInt8 | KInt16 | KInt32 | KInt64
  | KUint | KUint8 | KUint16 | KUint32 | KUint64 | KUintptr
  | KFloat32 | KFloat64
  | KComplex64 | KComplex128
  | KString
  | KUnsafePointer

datatype gtype =
    TBasic basic
  | TArray nat gtype
  | TChan gtype
  | TFunc "gtype list" "gtype list"
  | TInterface string
  | TMap gtype gtype
  | TPtr gtype
  | TSlice gtype
  | TStruct "StructField list"
  | TNamed string gtype
and StructField =
    StructField (Name: string) (IsExported: bool) (Type: gtype) (Tag: "(string \<times> string) list")

text \<open>
  A struct tag is kept as the list of its \<^verbatim>\<open>key:"value"\<close> pairs in the order they are
  written; \<^verbatim>\<open>Tag.Lookup\<close> returns the first pair with the key, \<^verbatim>\<open>Tag.Get\<close> the value
  or the empty string.
\<close>

fun Lookup :: "(string \<times> string) list \<Rightarrow> string \<Rightarrow> string \<times> bool" where
  "Lookup [] key = ([], False)"
| "Lookup ((k, v) # tag) key = (if k = key then (v, True) else Lookup tag key)"

definition Get :: "(string \<times> string) list \<Rightarrow> string \<Rightarrow> string" where
  "Get tag key = fst (Lookup tag key)"

fun underlying :: "gtype \<Rightarrow> gtype" where
  "underlying (TNamed n t) = underlying t"
| "underlying t = t"

definition isFunc :: "gtype \<Rightarrow> bool" where
  "isFunc t = (case underlying t of TFunc ins outs \<Rightarrow> True | _ \<Rightarrow> False)"

definition isStruct :: "gtype \<Rightarrow> bool" where
  "isStruct t = (case underlying t of TStruct flds \<Rightarrow> True | _ \<Rightarrow> False)"

definition isSlice :: "gtype \<Rightarrow> bool" where
  "isSlice t = (case underlying t of TSlice e \<Rightarrow> True | _ \<Rightarrow> False)"

definition isMap :: "gtype \<Rightarrow> bool" where
  "isMap t = (case underlying t of TMap k v \<Rightarrow> True | _ \<Rightarrow> False)"

definition In :: "gtype \<Rightarrow> gtype list" where
  "In t = (case underlying t of TFunc ins outs \<Rightarrow> ins | _ \<Rightarrow> [])"

definition Out :: "gtype \<Rightarrow> gtype list" where
  "Out t = (case underlying t of TFunc ins outs \<Rightarrow> outs | _ \<Rightarrow> [])"

definition NumIn :: "gtype \<Rightarrow> nat" where
  "NumIn t = length (In t)"

definition NumOut :: "gtype \<Rightarrow> nat" where
  "NumOut t = length (Out t)"

subsection \<open>The fixed types the router compares against\<close>

definition typContext :: gtype where
  "typContext = TInterface ''context.Context''"

definition typEmptyFunc :: gtype where
  "typEmptyFunc = TFunc [] []"

definition typHandlerFunc :: gtype where
  "typHandlerFunc = TFunc [typContext] []"

definition typHandler :: gtype where
  "typHandler = TNamed ''flags.Handler'' (TFunc [typContext] [])"

definition typMiddlewareFunc :: gtype where
  "typMiddlewareFunc = TFunc [typContext, typHandler] []"

definition typMiddleware :: gtype where
  "typMiddleware = TNamed ''flags.Middleware'' (TFunc [typContext, typHandler] [])"

definition typDuration :: gtype where
  "typDuration = TNamed ''time.Duration'' (TBasic KInt64)"

text \<open>\<^verbatim>\<open>time.Time\<close> is a struct whose three fields are all unexported.\<close>

definition typDateTime :: gtype where
  "typDateTime = TNamed ''time.Time'' (TStruct
     [StructField ''wall'' False (TBasic KUint64) [],
      StructField ''ext'' False (TBasic KInt64) [],
      StructField ''loc'' False (TPtr (TNamed ''time.Location'' (TStruct []))) []])"

text \<open>
  \<^verbatim>\<open>ConvertibleTo\<close> is only ever asked with one of the function types above as its
  target. For a target of kind Func, reflection answers whether the two underlying
  types are identical.
\<close>

definition ConvertibleTo :: "gtype \<Rightarrow> gtype \<Rightarrow> bool" where
  "ConvertibleTo src dst = (underlying src = underlying dst)"

section \<open>Library functions on strings\<close>

text \<open>
  Strings are byte sequences, as in Go. \<^verbatim>\<open>strings.Split\<close> cuts at the successive
  non-overlapping occurrences of a separator, from the left. Every caller below passes
  a non-empty separator; for the empty one Go cuts after every UTF-8 sequence, which is
  given here for single-byte characters only.
\<close>

fun HasPrefix :: "string \<Rightarrow> string \<Rightarrow> bool" where
  "HasPrefix s [] = True"
| "HasPrefix [] (p # ps) = False"
| "HasPrefix (c # cs) (p # ps) = (c = p \<and> HasPrefix cs ps)"

function splitFrom :: "string \<Rightarrow> string \<Rightarrow> string \<Rightarrow> string list" where
  "splitFrom sep piece [] = [piece]"
| "splitFrom sep piece (c # cs) =
     (if sep \<noteq> [] \<and> HasPrefix (c # cs) sep
      then piece # splitFrom sep [] (drop (length sep) (c # cs))
      else splitFrom sep (piece @ [c]) cs)"
  by pat_completeness auto
termination
  by (relation "measure (\<lambda>(sep, piece, s). length s)") auto

definition Split :: "string \<Rightarrow> string \<Rightarrow> string list" where
  "Split s sep = (if sep = [] then map (\<lambda>c. [c]) s else splitFrom sep [] s)"

text \<open>
  \<^verbatim>\<open>strings.TrimSpace\<close> removes the leading and the trailing white space, as Unicode
  defines it (\<^verbatim>\<open>unicode.IsSpace\<close>): the six ASCII characters and the code points U+0085,
  U+00A0, U+1680, U+2000 to U+200A, U+2028, U+2029, U+202F, U+205F and U+3000, which a
  string holds in their UTF-8 encoding. A string starts (ends) with one of these
  encodings exactly when the rune decoded from its front (back) is that code point: an
  encoding is the only valid spelling of its code point, and none of them is the start
  or the end of another.
\<close>

definition spaces :: "string list" where
  "spaces =
     [[CHR 0x09], [CHR 0x0A], [CHR 0x0B], [CHR 0x0C], [CHR 0x0D], [CHR 0x20],
      [CHR 0xC2, CHR 0x85], [CHR 0xC2, CHR 0xA0],
      [CHR 0xE1, CHR 0x9A, CHR 0x80],
      [CHR 0xE2, CHR 0x80, CHR 0x80], [CHR 0xE2, CHR 0x80, CHR 0x81],
      [CHR 0xE2, CHR 0x80, CHR 0x82], [CHR 0xE2, CHR 0x80, CHR 0x83],
      [CHR 0xE2, CHR 0x80, CHR 0x84], [CHR 0xE2, CHR 0x80, CHR 0x85],
      [CHR 0xE2, CHR 0x80, CHR 0x86], [CHR 0xE2, CHR 0x80, CHR 0x87],
      [CHR 0xE2, CHR 0x80, CHR 0x88], [CHR 0xE2, CHR 0x80, CHR 0x89],
      [CHR 0xE2, CHR 0x80, CHR 0x8A],
      [CHR 0xE2, CHR 0x80, CHR 0xA8], [CHR 0xE2, CHR 0x80, CHR 0xA9],
      [CHR 0xE2, CHR 0x80, CHR 0xAF],
      [CHR 0xE2, CHR 0x81, CHR 0x9F],
      [CHR 0xE3, CHR 0x80, CHR 0x80]]"

text \<open>\<open>trimLeft ws\<close> removes members of \<open>ws\<close> (none of them empty) from the front for as
  long as there is one; \<open>trimRight ws\<close> does so from the back.\<close>

fun trimLeft :: "string list \<Rightarrow> string \<Rightarrow> string" where
  "trimLeft ws [] = []"
| "trimLeft ws (c # cs) =
     (case find (HasPrefix (c # cs)) ws of
        Some w \<Rightarrow> trimLeft ws (drop (length w - 1) cs)
      | None \<Rightarrow> c # cs)"

definition trimRight :: "string list \<Rightarrow> string \<Rightarrow> string" where
  "trimRight ws s = rev (trimLeft (map rev ws) (rev s))"

definition TrimSpace :: "string \<Rightarrow> string" where
  "TrimSpace s = trimRight spaces (trimLeft spaces s)"

text \<open>
  The conversion \<^verbatim>\<open>string(b)\<close> of a byte is the UTF-8 encoding of the code point
  with that number: one byte below 128, two bytes from 128 on.
\<close>

definition stringOfByte :: "char \<Rightarrow> string" where
  "stringOfByte b =
     (let n = (of_char b :: nat)
      in if n < 128 then [b]
         else [char_of (192 + n div 64), char_of (128 + n mod 64)])"

section \<open>Values and errors\<close>

text \<open>
  Values that reach the router as \<^verbatim>\<open>any\<close>. A Go map is kept as a list of entries
  with pairwise distinct keys, in the order the keys were first stored. Floating-point
  numbers, durations, points in time and whatever a user-defined parser produces are
  built by functions the model receives as parameters; \<open>VOpaque\<close> is available to
  them for values with no structure of interest here.
\<close>

datatype gvalue =
    VInt int
  | VUint nat
  | VBool bool
  | VString string
  | VSlice "gvalue list"
  | VMap "(gvalue \<times> gvalue) list"
  | VOpaque string

datatype numerr = ErrSyntax | ErrRange

text \<open>
  One constructor for each way an error value is made: \<^verbatim>\<open>errors.New\<close> with a fixed
  text, the four \<^verbatim>\<open>fmt.Errorf\<close> formats with their argument, \<^verbatim>\<open>*strconv.NumError\<close>
  with function name and input, an error handed back by a parameter of the model, and a
  run-time panic of the reflection library or of a nil dereference.
\<close>

datatype error =
    ErrorNew string
  | ArgMustBeStruct string
  | InvalidShortTag string
  | UnsupportedType gtype
  | CannotConvertKeyValue string
  | NumError string string numerr
  | Foreign string
  | RuntimePanic string

subsection \<open>strconv\<close>

definition isDigit :: "char \<Rightarrow> bool" where
  "isDigit c = (48 \<le> (of_char c :: nat) \<and> (of_char c :: nat) \<le> 57)"

definition maxUint64 :: nat where
  "maxUint64 = 2 ^ 64 - 1"

text \<open>
  The digit loop of \<^verbatim>\<open>strconv.ParseUint\<close> for base 10 and 64 bits: a byte that is
  not a decimal digit is a syntax error, an accumulator that would leave 64 bits a range
  error, whichever comes first from the left.
\<close>

fun parseDigits :: "nat \<Rightarrow> string \<Rightarrow> numerr + nat" where
  "parseDigits n [] = Inr n"
| "parseDigits n (c # cs) =
     (if \<not> isDigit c then Inl ErrSyntax
      else if n \<ge> maxUint64 div 10 + 1 then Inl ErrRange
      else let n1 = n * 10 + (of_char c - 48)
           in if n1 > maxUint64 then Inl ErrRange else parseDigits n1 cs)"

definition ParseUint :: "string \<Rightarrow> error + nat" where
  "ParseUint s =
     (if s = [] then Inl (NumError ''ParseUint'' s ErrSyntax)
      else case parseDigits 0 s of
             Inl e \<Rightarrow> Inl (NumError ''ParseUint'' s e)
           | Inr n \<Rightarrow> Inr n)"

definition ParseInt :: "string \<Rightarrow> error + int" where
  "ParseInt s0 =
     (if s0 = [] then Inl (NumError ''ParseInt'' s0 ErrSyntax)
      else let neg = (hd s0 = CHR ''-'');
               s = (if hd s0 = CHR ''+'' \<or> hd s0 = CHR ''-'' then tl s0 else s0)
           in case ParseUint s of
                Inl (NumError f num ErrSyntax) \<Rightarrow> Inl (NumError ''ParseInt'' s0 ErrSyntax)
              | Inl e \<Rightarrow> Inl (NumError ''ParseInt'' s0 ErrRange)
              | Inr un \<Rightarrow>
                  if \<not> neg \<and> un \<ge> 2 ^ 63 then Inl (NumError ''ParseInt'' s0 ErrRange)
                  else if neg \<and> un > 2 ^ 63 then Inl (NumError ''ParseInt'' s0 ErrRange)
                  else Inr (if neg then - int un else int un))"

text \<open>
  The value a decimal literal denotes, stated apart from the loop of \<^verbatim>\<open>strconv\<close>: a
  literal is decimal when it is a non-empty string of digits, its value is that of the
  digits in base ten, and a signed literal is a decimal one after an optional sign.
\<close>

definition isDecimal :: "string \<Rightarrow> bool" where
  "isDecimal s = (s \<noteq> [] \<and> list_all isDigit s)"

definition decimalValue :: "string \<Rightarrow> nat" where
  "decimalValue s = foldl (\<lambda>n c. n * 10 + (of_char c - 48)) 0 s"

definition signedBody :: "string \<Rightarrow> string" where
  "signedBody s = (if s \<noteq> [] \<and> (hd s = CHR ''+'' \<or> hd s = CHR ''-'') then tl s else s)"

definition signedValue :: "string \<Rightarrow> int" where
  "signedValue s =
     (if s \<noteq> [] \<and> hd s = CHR ''-'' then - int (decimalValue (signedBody s))
      else int (decimalValue (signedBody s)))"


definition ParseBool :: "string \<Rightarrow> error + bool" where
  "ParseBool str =
     (if str \<in> {''1'', ''t'', ''T'', ''TRUE'', ''true'', ''True''} then Inr True
      else if str \<in> {''0'', ''f'', ''F'', ''FALSE'', ''false'', ''False''} then Inr False
      else Inl (NumError ''ParseBool'' str ErrSyntax))"

subsection \<open>What the program and the platform supply\<close>

text \<open>
  \<open>ParseFlag env typ\<close> is the method \<^verbatim>\<open>ParseFlag\<close> of \<^verbatim>\<open>*typ\<close> when the pointer type
  implements \<^verbatim>\<open>flags.Parser\<close>, with the value found in the receiver after a call that
  returned no error. \<open>ParseFloat\<close>, \<open>ParseDuration\<close> and \<open>ParseInLocation\<close> stand for
  \<^verbatim>\<open>strconv.ParseFloat(dft, 64)\<close>, \<^verbatim>\<open>time.ParseDuration\<close> and
  \<^verbatim>\<open>time.ParseInLocation(flags.DateTime, dft, time.Local)\<close>; \<open>IntSize\<close> is the width
  of \<^verbatim>\<open>int\<close> and \<^verbatim>\<open>uint\<close>.
\<close>

record env =
  ParseFlag :: "gtype \<Rightarrow> (string \<Rightarrow> string + gvalue) option"
  ParseFloat :: "string \<Rightarrow> string + gvalue"
  ParseDuration :: "string \<Rightarrow> string + gvalue"
  ParseInLocation :: "string \<Rightarrow> string + gvalue"
  IntSize :: nat

definition foreign :: "string + gvalue \<Rightarrow> error + gvalue" where
  "foreign r = (case r of Inl msg \<Rightarrow> Inl (Foreign msg) | Inr v \<Rightarrow> Inr v)"

subsection \<open>reflect.Value.Convert\<close>

definition signedKinds :: "basic set" where
  "signedKinds = {KInt, KInt8, KInt16, KInt32, KInt64}"

definition unsignedKinds :: "basic set" where
  "unsignedKinds = {KUint, KUint8, KUint16, KUint32, KUint64}"

definition bitsOf :: "env \<Rightarrow> basic \<Rightarrow> nat" where
  "bitsOf env b =
     (if b \<in> {KInt8, KUint8} then 8
      else if b \<in> {KInt16, KUint16} then 16
      else if b \<in> {KInt32, KUint32, KFloat32} then 32
      else if b \<in> {KInt64, KUint64, KFloat64, KComplex64} then 64
      else if b = KComplex128 then 128
      else IntSize env)"

definition wrapSigned :: "nat \<Rightarrow> int \<Rightarrow> int" where
  "wrapSigned w n = (n + 2 ^ (w - 1)) mod 2 ^ w - 2 ^ (w - 1)"

definition wrapUnsigned :: "nat \<Rightarrow> nat \<Rightarrow> nat" where
  "wrapUnsigned w n = n mod 2 ^ w"

text \<open>
  Every conversion the router performs has a source whose type is the target type, save
  two: the \<^verbatim>\<open>int64\<close> of \<^verbatim>\<open>ParseInt\<close> converted to a signed integer type and the
  \<^verbatim>\<open>uint64\<close> of \<^verbatim>\<open>ParseUint\<close> to an unsigned one, which keep the low bits of the
  target's width. (The \<^verbatim>\<open>float64\<close> of \<^verbatim>\<open>ParseFloat\<close> converted to \<^verbatim>\<open>float32\<close> is
  rounded; floating-point values are not modelled.)
\<close>

definition Convert :: "env \<Rightarrow> gvalue \<Rightarrow> gtype \<Rightarrow> gvalue" where
  "Convert env v typ =
     (case (v, underlying typ) of
        (VInt n, TBasic b) \<Rightarrow> if b \<in> signedKinds then VInt (wrapSigned (bitsOf env b) n) else v
      | (VUint n, TBasic b) \<Rightarrow> if b \<in> unsignedKinds then VUint (wrapUnsigned (bitsOf env b) n) else v
      | _ \<Rightarrow> v)"

subsection \<open>Maps and slices\<close>

fun MapIndex :: "(gvalue \<times> gvalue) list \<Rightarrow> gvalue \<Rightarrow> gvalue option" where
  "MapIndex [] key = None"
| "MapIndex ((k, v) # m) key = (if k = key then Some v else MapIndex m key)"

fun SetMapIndex :: "(gvalue \<times> gvalue) list \<Rightarrow> gvalue \<Rightarrow> gvalue \<Rightarrow> (gvalue \<times> gvalue) list" where
  "SetMapIndex [] key val = [(key, val)]"
| "SetMapIndex ((k, v) # m) key val =
     (if k = key then (k, val) # m else (k, v) # SetMapIndex m key val)"

text \<open>\<^verbatim>\<open>reflect.AppendSlice\<close> is only applied to two values of one slice type.\<close>

fun AppendSlice :: "gvalue \<Rightarrow> gvalue \<Rightarrow> gvalue" where
  "AppendSlice (VSlice s) (VSlice t) = VSlice (s @ t)"
| "AppendSlice s t = t"

section \<open>Default coercion: parseDefault\<close>

lemma size_underlying: "size (underlying t) \<le> size t"
  by (induction t rule: underlying.induct) simp_all

lemma size_elem_slice: "underlying t = TSlice e \<Longrightarrow> size e < size t"
  using size_underlying [of t] by simp

lemma size_elem_map: "underlying t = TMap k v \<Longrightarrow> size k + size v < size t"
  using size_underlying [of t] by simp

text \<open>
  \<open>parseDefault\<close> with its two loops: \<open>parseDefault_slice\<close> is the loop over the
  pieces of a slice literal (\<open>ls\<close> is the slice built so far), \<open>parseDefault_map\<close> the
  loop over the entries of a map literal (\<open>m\<close> is the map built so far). Each returns
  at the first error.
\<close>

function parseDefault :: "env \<Rightarrow> gtype \<Rightarrow> string \<Rightarrow> string list \<Rightarrow> error + gvalue"
  and parseDefault_slice ::
    "env \<Rightarrow> gtype \<Rightarrow> string list \<Rightarrow> string list \<Rightarrow> gvalue list \<Rightarrow> error + gvalue"
  and parseDefault_map ::
    "env \<Rightarrow> gtype \<Rightarrow> gtype \<Rightarrow> string list \<Rightarrow> string \<Rightarrow> string list \<Rightarrow> (gvalue \<times> gvalue) list
       \<Rightarrow> error + gvalue"
where
  "parseDefault env typ dft sep =
     (case ParseFlag env typ of
        Some hook \<Rightarrow> foreign (hook dft)
      | None \<Rightarrow>
          if typ = typDuration then foreign (ParseDuration env dft)
          else if typ = typDateTime then foreign (ParseInLocation env dft)
          else (case underlying typ of
            TBasic b \<Rightarrow>
              if b \<in> signedKinds then
                (case ParseInt dft of Inl e \<Rightarrow> Inl e | Inr n \<Rightarrow> Inr (VInt n))
              else if b \<in> unsignedKinds then
                (case ParseUint dft of Inl e \<Rightarrow> Inl e | Inr n \<Rightarrow> Inr (VUint n))
              else if b \<in> {KFloat32, KFloat64} then foreign (ParseFloat env dft)
              else if b = KBool then
                (case ParseBool dft of Inl e \<Rightarrow> Inl e | Inr v \<Rightarrow> Inr (VBool v))
              else if b = KString then Inr (VString dft)
              else Inl (UnsupportedType typ)
          | TSlice elemTyp \<Rightarrow>
              (let seperator = (if length sep > 0 \<and> sep ! 0 \<noteq> [] then sep ! 0 else '','');
                   seperator = (if isMap elemTyp
                                then (if length sep > 2 \<and> sep ! 2 \<noteq> [] then sep ! 2 else '';'')
                                else seperator);
                   elems = Split dft seperator
               in parseDefault_slice env elemTyp elems sep [])
          | TMap kt vt \<Rightarrow>
              (let sepElem = (if length sep > 0 \<and> sep ! 0 \<noteq> [] then sep ! 0 else '','');
                   sepKV = (if length sep > 1 \<and> sep ! 1 \<noteq> [] then sep ! 1 else '':'')
               in parseDefault_map env kt vt (Split dft sepElem) sepKV sep [])
          | _ \<Rightarrow> Inl (UnsupportedType typ)))"
| "parseDefault_slice env elemTyp [] sep ls = Inr (VSlice ls)"
| "parseDefault_slice env elemTyp (elem # elems) sep ls =
     (case parseDefault env elemTyp (TrimSpace elem) sep of
        Inl err \<Rightarrow> Inl err
      | Inr val \<Rightarrow> parseDefault_slice env elemTyp elems sep (ls @ [Convert env val elemTyp]))"
| "parseDefault_map env kt vt [] sepKV sep m = Inr (VMap m)"
| "parseDefault_map env kt vt (elem # elems) sepKV sep m =
     (case Split elem sepKV of
        [kv0, kv1] \<Rightarrow>
          (case parseDefault env kt (TrimSpace kv0) sep of
             Inl err \<Rightarrow> Inl err
           | Inr key \<Rightarrow>
               (case parseDefault env vt (TrimSpace kv1) sep of
                  Inl err \<Rightarrow> Inl err
                | Inr val \<Rightarrow>
                    parseDefault_map env kt vt elems sepKV sep
                      (if isSlice vt then
                         (case MapIndex m (Convert env key kt) of
                            Some ori \<Rightarrow>
                              SetMapIndex m (Convert env key kt) (AppendSlice ori (Convert env val vt))
                          | None \<Rightarrow> SetMapIndex m (Convert env key kt) (Convert env val vt))
                       else SetMapIndex m (Convert env key kt) (Convert env val vt))))
      | _ \<Rightarrow> Inl (CannotConvertKeyValue elem))"
  by pat_completeness auto
termination
  by (relation "inv_image (less_than <*lex*> less_than)
        (\<lambda>x. case x of
           Inl (env, typ, dft, sep) \<Rightarrow> (size typ, 0)
         | Inr (Inl (env, elemTyp, elems, sep, ls)) \<Rightarrow> (size elemTyp, Suc (length elems))
         | Inr (Inr (env, kt, vt, elems, sepKV, sep, m)) \<Rightarrow>
             (size kt + size vt, Suc (length elems)))")
     (auto simp: wf_lex_prod dest: size_elem_slice size_elem_map)

declare parseDefault.simps [simp del]

subsection \<open>The branches of parseDefault\<close>

text \<open>One equation for each way through \<open>parseDefault\<close>, and the fact that none of
  them produces the error of an invalid short tag.\<close>

lemma parseDefault_TSlice:
  assumes "ParseFlag env ty = None" and "underlying ty = TSlice elemTyp"
  shows "parseDefault env ty dft sep =
    parseDefault_slice env elemTyp
      (Split dft (if isMap elemTyp
                  then (if length sep > 2 \<and> sep ! 2 \<noteq> [] then sep ! 2 else '';'')
                  else (if length sep > 0 \<and> sep ! 0 \<noteq> [] then sep ! 0 else '',''))) sep []"
proof -
  from assms(2) have "ty \<noteq> typDuration" "ty \<noteq> typDateTime"
    by (auto simp: typDuration_def typDateTime_def)
  with assms show ?thesis
    by (simp add: parseDefault.simps [of env ty] Let_def)
qed

lemma parseDefault_TMap:
  assumes "ParseFlag env ty = None" and "underlying ty = TMap kt vt"
  shows "parseDefault env ty dft sep =
    parseDefault_map env kt vt
      (Split dft (if length sep > 0 \<and> sep ! 0 \<noteq> [] then sep ! 0 else '',''))
      (if length sep > 1 \<and> sep ! 1 \<noteq> [] then sep ! 1 else '':'') sep []"
proof -
  from assms(2) have "ty \<noteq> typDuration" "ty \<noteq> typDateTime"
    by (auto simp: typDuration_def typDateTime_def)
  with assms show ?thesis
    by (simp add: parseDefault.simps [of env ty] Let_def)
qed

lemma parseDefault_hook:
  "ParseFlag env ty = Some hook \<Longrightarrow> parseDefault env ty dft sep = foreign (hook dft)"
  by (simp add: parseDefault.simps [of env ty])

lemma parseDefault_Duration:
  "ParseFlag env typDuration = None \<Longrightarrow>
   parseDefault env typDuration dft sep = foreign (ParseDuration env dft)"
  by (simp add: parseDefault.simps [of env typDuration])

lemma parseDefault_DateTime:
  "ParseFlag env typDateTime = None \<Longrightarrow>
   parseDefault env typDateTime dft sep = foreign (ParseInLocation env dft)"
proof -
  have "typDateTime \<noteq> typDuration"
    by (simp add: typDuration_def typDateTime_def)
  then show "ParseFlag env typDateTime = None \<Longrightarrow> ?thesis"
    by (simp add: parseDefault.simps [of env typDateTime])
qed

lemma parseDefault_TBasic:
  assumes "ParseFlag env ty = None" and "ty \<noteq> typDuration" and "underlying ty = TBasic b"
  shows "parseDefault env ty dft sep =
    (if b \<in> signedKinds then
       (case ParseInt dft of Inl e \<Rightarrow> Inl e | Inr n \<Rightarrow> Inr (VInt n))
     else if b \<in> unsignedKinds then
       (case ParseUint dft of Inl e \<Rightarrow> Inl e | Inr n \<Rightarrow> Inr (VUint n))
     else if b \<in> {KFloat32, KFloat64} then foreign (ParseFloat env dft)
     else if b = KBool then
       (case ParseBool dft of Inl e \<Rightarrow> Inl e | Inr v \<Rightarrow> Inr (VBool v))
     else if b = KString then Inr (VString dft)
     else Inl (UnsupportedType ty))"
proof -
  from assms(3) have "ty \<noteq> typDateTime"
    by (auto simp: typDateTime_def)
  with assms show ?thesis
    by (simp only: parseDefault.simps [of env ty] option.case if_False gtype.case)
qed

lemma parseDefault_unsupported:
  assumes "ParseFlag env ty = None" and "ty \<noteq> typDuration" and "ty \<noteq> typDateTime"
    and "\<And>b. underlying ty \<noteq> TBasic b" and "\<And>e. underlying ty \<noteq> TSlice e"
    and "\<And>k v. underlying ty \<noteq> TMap k v"
  shows "parseDefault env ty dft sep = Inl (UnsupportedType ty)"
proof (cases "underlying ty")
  case (TBasic b)
  with assms(4) show ?thesis by blast
next
  case (TSlice e)
  with assms(5) show ?thesis by blast
next
  case (TMap k v)
  with assms(6) show ?thesis by blast
qed (use assms(1-3) in \<open>simp_all only: parseDefault.simps [of env ty] option.case if_False gtype.case\<close>)

definition isInvalidShortTag :: "error + 'a \<Rightarrow> bool" where
  "isInvalidShortTag r = (case r of Inl (InvalidShortTag s) \<Rightarrow> True | _ \<Rightarrow> False)"

lemma isInvalidShortTag_simps [simp]:
  "\<not> isInvalidShortTag (Inr v)" "\<not> isInvalidShortTag (foreign x)" "\<not> isInvalidShortTag (Inl (UnsupportedType t))"
  "\<not> isInvalidShortTag (Inl (CannotConvertKeyValue e))" "\<not> isInvalidShortTag (Inl (NumError f n k))"
  by (simp_all add: isInvalidShortTag_def foreign_def split: sum.splits)

lemma ParseInt_no_isInvalidShortTag: "\<not> isInvalidShortTag (case ParseInt x of Inl e \<Rightarrow> Inl e | Inr n \<Rightarrow> Inr (f n))"
  by (simp add: ParseInt_def Let_def isInvalidShortTag_def
      split: sum.splits error.splits numerr.splits)

lemma ParseUint_no_isInvalidShortTag: "\<not> isInvalidShortTag (case ParseUint x of Inl e \<Rightarrow> Inl e | Inr n \<Rightarrow> Inr (f n))"
  by (simp add: ParseUint_def isInvalidShortTag_def split: sum.splits)

lemma ParseBool_no_isInvalidShortTag: "\<not> isInvalidShortTag (case ParseBool x of Inl e \<Rightarrow> Inl e | Inr n \<Rightarrow> Inr (f n))"
  by (simp add: ParseBool_def isInvalidShortTag_def split: sum.splits)

lemma parseDefault_no_isInvalidShortTag:
  "\<not> isInvalidShortTag (parseDefault env ty dft sep)"
  "\<not> isInvalidShortTag (parseDefault_slice env et elems sep ls)"
  "\<not> isInvalidShortTag (parseDefault_map env kt vt elems sepKV sep m)"
proof (induct env ty dft sep and env et elems sep ls and env kt vt elems sepKV sep m
    rule: parseDefault_parseDefault_slice_parseDefault_map.induct)
  case (1 env ty dft sep)
  show ?case
  proof (cases "ParseFlag env ty")
    case (Some hook)
    then show ?thesis by (simp add: parseDefault_hook)
  next
    case None
    consider "ty = typDuration" | "ty = typDateTime"
      | b where "ty \<noteq> typDuration" "underlying ty = TBasic b"
      | e where "underlying ty = TSlice e"
      | k v where "underlying ty = TMap k v"
      | "ty \<noteq> typDuration" "ty \<noteq> typDateTime" "\<And>b. underlying ty \<noteq> TBasic b"
        "\<And>e. underlying ty \<noteq> TSlice e" "\<And>k v. underlying ty \<noteq> TMap k v"
      by blast
    then show ?thesis
    proof cases
      case 1
      with None show ?thesis by (simp add: parseDefault_Duration)
    next
      case 2
      with None show ?thesis by (simp add: parseDefault_DateTime)
    next
      case 3
      with None show ?thesis
        by (simp add: parseDefault_TBasic ParseInt_no_isInvalidShortTag ParseUint_no_isInvalidShortTag
            ParseBool_no_isInvalidShortTag)
    next
      case 4
      then have ne: "ty \<noteq> typDuration" "ty \<noteq> typDateTime"
        by (auto simp: typDuration_def typDateTime_def)
      show ?thesis
        using "1.hyps"(2) [OF None ne 4 refl refl refl]
        by (simp add: parseDefault_TSlice [OF None 4])
    next
      case 5
      then have ne: "ty \<noteq> typDuration" "ty \<noteq> typDateTime"
        by (auto simp: typDuration_def typDateTime_def)
      show ?thesis
        using "1.hyps"(1) [OF None ne 5 refl refl]
        by (simp add: parseDefault_TMap [OF None 5])
    next
      case 6
      with None show ?thesis by (simp add: parseDefault_unsupported)
    qed
  qed
next
  case (2 env elemTyp sep ls)
  show ?case by (simp add: parseDefault.simps)
next
  case (3 env elemTyp elem elems sep ls)
  then show ?case
    by (cases "parseDefault env elemTyp (TrimSpace elem) sep")
      (simp_all add: parseDefault.simps)
next
  case (4 env kt vt sepKV sep m)
  show ?case by (simp add: parseDefault.simps)
next
  case (5 env kt vt elem elems sepKV sep m)
  show ?case
  proof (cases "\<exists>kv0 kv1. Split elem sepKV = [kv0, kv1]")
    case False
    then have "parseDefault_map env kt vt (elem # elems) sepKV sep m = Inl (CannotConvertKeyValue elem)"
      by (auto simp: parseDefault.simps split: list.splits)
    then show ?thesis by simp
  next
    case True
    then obtain kv0 kv1 where kv: "Split elem sepKV = [kv0, kv1]" by blast
    show ?thesis
    proof (cases "parseDefault env kt (TrimSpace kv0) sep")
      case (Inl e)
      with kv "5.hyps"(1) [OF kv refl refl] show ?thesis
        by (simp add: parseDefault.simps)
    next
      case key: (Inr key)
      show ?thesis
      proof (cases "parseDefault env vt (TrimSpace kv1) sep")
        case (Inl e)
        with kv key "5.hyps"(2) [OF kv refl refl key] show ?thesis
          by (simp add: parseDefault.simps)
      next
        case val: (Inr val)
        show ?thesis
          using "5.hyps"(3) [OF kv refl refl key val] kv key val
          by (simp add: parseDefault.simps)
      qed
    qed
  qed
qed

section \<open>Tag parsing: parseTag\<close>

text \<open>The results of \<^verbatim>\<open>parseTag\<close> other than the error; \<open>Short = CHR 0x00\<close> is Go's
  zero byte and \<open>Dft = None\<close> the nil default.\<close>

record tag =
  Short :: char
  Long :: string
  Dft :: "gvalue option"
  ZeroDft :: bool
  Desc :: string
  Sep :: "string list"

definition parseTag :: "env \<Rightarrow> StructField \<Rightarrow> error + tag" where
  "parseTag env field =
     (let tagShort = Get (Tag field) ''short''
      in if tagShort \<noteq> [] \<and> length tagShort > 1 then Inl (InvalidShortTag tagShort)
         else
           let short = (if tagShort \<noteq> [] then hd tagShort else CHR 0x00);
               long = Get (Tag field) ''long'';
               seperator = TrimSpace (Get (Tag field) ''sep'');
               sep = (if seperator \<noteq> [] then map stringOfByte seperator else []);
               tagDft = fst (Lookup (Tag field) ''dft'');
               zeroDft = snd (Lookup (Tag field) ''dft'');
               desc = Get (Tag field) ''desc''
           in if tagDft \<noteq> [] then
                (case parseDefault env (Type field) tagDft sep of
                   Inl err \<Rightarrow> Inl err
                 | Inr dft \<Rightarrow>
                     Inr \<lparr>Short = short, Long = long, Dft = Some dft, ZeroDft = zeroDft,
                          Desc = desc, Sep = sep\<rparr>)
              else Inr \<lparr>Short = short, Long = long, Dft = None, ZeroDft = zeroDft,
                        Desc = desc, Sep = sep\<rparr>)"

section \<open>The router and the flag set behind it\<close>

text \<open>
  Callables act on a program state of type \<open>'s\<close>, about which nothing is assumed, and
  return normally. \<open>ctx\<close> stands for a \<^verbatim>\<open>context.Context\<close> value. A handler is
  \<^verbatim>\<open>func(context.Context)\<close>, a middleware
  \<^verbatim>\<open>func(context.Context, flags.Handler)\<close>; the statement sequence \<^verbatim>\<open>f(); g()\<close> is
  \<open>andThen f g\<close>.
\<close>

type_synonym ctx = nat

type_synonym 's Handler = "ctx \<Rightarrow> 's \<Rightarrow> 's"

type_synonym 's Middleware = "ctx \<Rightarrow> 's Handler \<Rightarrow> 's \<Rightarrow> 's"

definition andThen :: "('s \<Rightarrow> 's) \<Rightarrow> ('s \<Rightarrow> 's) \<Rightarrow> 's \<Rightarrow> 's" where
  "andThen f g = (\<lambda>s. g (f s))"

text \<open>
  The bound options instance \<^verbatim>\<open>reflect.New(arg)\<close> is named by its allocation number;
  \<open>Param val isPtr\<close> is the value \<^verbatim>\<open>ret\<close> of \<^verbatim>\<open>parseOptions\<close>: the pointer to
  instance \<open>val\<close> when \<open>isPtr\<close>, the struct it points to otherwise.
\<close>

datatype param = Param nat bool

text \<open>
  The arguments of \<^verbatim>\<open>function.Call\<close>: the context, the bound instance, the closure
  \<^verbatim>\<open>func() { handler(ctx) }\<close> and the handler itself, each converted to the parameter's
  type.
\<close>

datatype 's arg =
    ACtx ctx
  | AParam param
  | AFunc0 "'s \<Rightarrow> 's"
  | AFunc1 "'s Handler"

text \<open>
  A value of type \<^verbatim>\<open>any\<close> handed to \<^verbatim>\<open>Use\<close> or \<^verbatim>\<open>Handle\<close>: its dynamic type
  (\<open>None\<close> for the nil interface), whether it is the nil value of that type, and, when
  it is a function other than nil, what calling it with given arguments does to the
  program state. (Calling a nil function panics; the wrappers below are never run on
  one in what follows.)
\<close>

datatype 's any =
  Any (TypeOf: "gtype option") (IsNil: bool) (Call: "'s arg list \<Rightarrow> 's \<Rightarrow> 's")

datatype Options =
    WithSliceSeperator string
  | WithKeyValueSeperator string
  | WithZeroDefault bool

text \<open>One call of \<^verbatim>\<open>AnyVar\<close>: the field bound (instance and field index), the two
  identifiers, the default, the description and the options.\<close>

record var =
  Ptr :: "nat \<times> nat"
  ShortName :: char
  LongName :: string
  Default :: "gvalue option"
  Usage :: string
  Opts :: "Options list"

record 's FlagSet =
  Vars :: "var list"
  Middlewares :: "'s Middleware list"
  Exec :: "'s Handler option"

text \<open>\<open>heap\<close> counts the instances allocated so far.\<close>

record 's Router =
  fs :: "'s FlagSet"
  heap :: nat

text \<open>
  Modelled from the spec: the flag set of the external package
  \<^verbatim>\<open>github.com/eachain/flags\<close> is not part of the sources. Its registration call
  \<^verbatim>\<open>AnyVar\<close> accepts field address, short identifier, long identifier, default value,
  description and options and stores them; an identifier that is already registered in
  the flag set is a fatal registration error of the engine (the README shows the panic
  \<^verbatim>\<open>flags: duplicated short option: -c\<close>). \<^verbatim>\<open>Use\<close> and \<^verbatim>\<open>Handle\<close> accept the
  normalised wrappers. Only one scope is modelled, and no other failure of the engine.
\<close>

definition duplicated :: "var list \<Rightarrow> var \<Rightarrow> error option" where
  "duplicated vars v =
     (if ShortName v \<noteq> CHR 0x00 \<and> ShortName v \<in> set (map ShortName vars)
      then Some (RuntimePanic (''flags: duplicated short option: -'' @ [ShortName v]))
      else if LongName v \<noteq> [] \<and> LongName v \<in> set (map LongName vars)
      then Some (RuntimePanic (''flags: duplicated long option: --'' @ LongName v))
      else None)"

definition AnyVar ::
  "'s FlagSet \<Rightarrow> nat \<times> nat \<Rightarrow> char \<Rightarrow> string \<Rightarrow> gvalue option \<Rightarrow> string \<Rightarrow> Options list
     \<Rightarrow> error + 's FlagSet" where
  "AnyVar f ptr short long dft desc opts =
     (let v = \<lparr>Ptr = ptr, ShortName = short, LongName = long, Default = dft,
                Usage = desc, Opts = opts\<rparr>
      in case duplicated (Vars f) v of
           Some err \<Rightarrow> Inl err
         | None \<Rightarrow> Inr (f\<lparr>Vars := Vars f @ [v]\<rparr>))"

definition fsUse :: "'s FlagSet \<Rightarrow> 's Middleware \<Rightarrow> 's FlagSet" where
  "fsUse f m = f\<lparr>Middlewares := Middlewares f @ [m]\<rparr>"

definition fsHandle :: "'s FlagSet \<Rightarrow> 's Handler \<Rightarrow> 's FlagSet" where
  "fsHandle f h = f\<lparr>Exec := Some h\<rparr>"

section \<open>The binder: parseField, parseOptions, parseFuncArgs\<close>

text \<open>
  The functions of the router return their error (if any) together with the router as
  they leave it: what was registered before an error stays registered. A panic inside
  \<^verbatim>\<open>AnyVar\<close> leaves the function like an error does.
\<close>

definition parseField ::
  "env \<Rightarrow> 's Router \<Rightarrow> StructField \<Rightarrow> nat \<times> nat \<Rightarrow> error option \<times> 's Router" where
  "parseField env r field val =
     (if \<not> IsExported field then (None, r)
      else case parseTag env field of
        Inl err \<Rightarrow> (Some err, r)
      | Inr t \<Rightarrow>
          if Short t = CHR 0x00 \<and> Long t = [] then (None, r)
          else
            let dft = (case Dft t of None \<Rightarrow> None
                       | Some d \<Rightarrow> Some (Convert env d (Type field)));
                opts = (if length (Sep t) > 0 then [WithSliceSeperator (Sep t ! 0)] else []);
                opts = (if length (Sep t) > 1 then opts @ [WithKeyValueSeperator (Sep t ! 1)]
                        else opts);
                opts = opts @ [WithZeroDefault (ZeroDft t)]
            in (case AnyVar (fs r) val (Short t) (Long t) dft (Desc t) opts of
                  Inl err \<Rightarrow> (Some err, r)
                | Inr f \<Rightarrow> (None, r\<lparr>fs := f\<rparr>)))"

definition Fields :: "gtype \<Rightarrow> StructField list" where
  "Fields t = (case underlying t of TStruct flds \<Rightarrow> flds | _ \<Rightarrow> [])"

text \<open>The loop of \<^verbatim>\<open>parseOptions\<close> over the fields from index \<open>i\<close> on.\<close>

fun parseOptions_loop ::
  "env \<Rightarrow> 's Router \<Rightarrow> StructField list \<Rightarrow> nat \<Rightarrow> nat \<Rightarrow> error option \<times> 's Router" where
  "parseOptions_loop env r [] val i = (None, r)"
| "parseOptions_loop env r (field # flds) val i =
     (case parseField env r field (val, i) of
        (Some err, r') \<Rightarrow> (Some err, r')
      | (None, r') \<Rightarrow> parseOptions_loop env r' flds val (Suc i))"

definition parseOptions ::
  "env \<Rightarrow> 's Router \<Rightarrow> gtype \<Rightarrow> bool \<Rightarrow> (error + param) \<times> 's Router" where
  "parseOptions env r arg isPtr =
     (let val = heap r;
          ret = Param val isPtr
      in case parseOptions_loop env (r\<lparr>heap := Suc (heap r)\<rparr>) (Fields arg) val 0 of
           (Some err, r') \<Rightarrow> (Inl err, r')
         | (None, r') \<Rightarrow> (Inr ret, r'))"

definition parseFuncArgs ::
  "env \<Rightarrow> 's Router \<Rightarrow> gtype \<Rightarrow> string \<Rightarrow> (error + param) \<times> 's Router" where
  "parseFuncArgs env r arg who =
     (let isPtr = (case underlying arg of TPtr e \<Rightarrow> True | _ \<Rightarrow> False);
          arg = (case underlying arg of TPtr e \<Rightarrow> e | _ \<Rightarrow> arg)
      in if \<not> isStruct arg then (Inl (ArgMustBeStruct who), r)
         else parseOptions env r arg isPtr)"

section \<open>The resolver for handlers: parseFuncFast, parseFunc, Handle\<close>

text \<open>
  A method call on the nil \<^verbatim>\<open>reflect.Type\<close> of a nil value panics, and so does
  \<^verbatim>\<open>Value.Convert\<close> to a type the value is not convertible to, and a type assertion
  on a value of another dynamic type. \<open>Inr None\<close> is the result \<^verbatim>\<open>nil, nil\<close>: where
  the fast path returns the value itself (\<^verbatim>\<open>fn.(flags.Handler)\<close>,
  \<^verbatim>\<open>fn.(func(context.Context))\<close>, the converted middleware) rather than a closure
  around it, a nil value gives a nil result, and the test \<^verbatim>\<open>h != nil\<close> of the caller
  then goes on to the slow path.
\<close>

definition parseFuncFast :: "'s any \<Rightarrow> gtype option \<Rightarrow> error + 's Handler option" where
  "parseFuncFast fn typ =
     (case typ of
        None \<Rightarrow> Inl (RuntimePanic ''invalid memory address or nil pointer dereference'')
      | Some t \<Rightarrow>
          if t = typEmptyFunc then Inr (Some (\<lambda>ctx. Call fn []))
          else if t = typHandler then
            Inr (if IsNil fn then None else Some (\<lambda>ctx. Call fn [ACtx ctx]))
          else if t = typHandlerFunc then
            Inr (if IsNil fn then None else Some (\<lambda>ctx. Call fn [ACtx ctx]))
          else if ConvertibleTo t typEmptyFunc then Inr (Some (\<lambda>ctx. Call fn []))
          else if ConvertibleTo t typHandler then
            (if ConvertibleTo t typEmptyFunc
             then Inl (RuntimePanic ''interface conversion: interface {} is func(), not flags.Handler'')
             else Inl (RuntimePanic ''reflect.Value.Convert: value cannot be converted to type func()''))
          else Inr None)"

definition parseFunc :: "env \<Rightarrow> 's Router \<Rightarrow> 's any \<Rightarrow> (error + 's Handler) \<times> 's Router" where
  "parseFunc env r fn =
     (let typ = TypeOf fn
      in case parseFuncFast fn typ of
           Inl err \<Rightarrow> (Inl err, r)
         | Inr (Some h) \<Rightarrow> (Inr h, r)
         | Inr None \<Rightarrow>
            (case typ of
               None \<Rightarrow> (Inl (ErrorNew ''handler must be a func''), r)
             | Some t \<Rightarrow>
                 if \<not> isFunc t then (Inl (ErrorNew ''handler must be a func''), r)
                 else if NumOut t \<noteq> 0 then (Inl (ErrorNew ''handler func must return nothing''), r)
                 else if NumIn t > 2 then
                   (Inl (ErrorNew ''handler func can only receive 0 or 1 or 2 arg in''), r)
                 else if NumIn t = 0 then (Inr (\<lambda>ctx. Call fn []), r)
                 else
                   let arg0 = In t ! 0
                   in if NumIn t = 1 then
                        (case parseFuncArgs env r arg0 ''handler'' of
                           (Inl err, r') \<Rightarrow> (Inl err, r')
                         | (Inr param, r') \<Rightarrow> (Inr (\<lambda>ctx. Call fn [AParam param]), r'))
                      else if arg0 \<noteq> typContext then
                        (Inl (ErrorNew
                           ''handler func with 2 args in, the first arg must be a context.Context''), r)
                      else
                        (case parseFuncArgs env r (In t ! 1) ''handler'' of
                           (Inl err, r') \<Rightarrow> (Inl err, r')
                         | (Inr param, r') \<Rightarrow>
                             (Inr (\<lambda>ctx. Call fn [ACtx ctx, AParam param]), r'))))"

text \<open>\<^verbatim>\<open>Handle\<close> returns nothing; \<open>Some err\<close> says that it panicked with \<open>err\<close>.\<close>

definition Handle :: "env \<Rightarrow> 's Router \<Rightarrow> 's any \<Rightarrow> error option \<times> 's Router" where
  "Handle env r handler =
     (case parseFunc env r handler of
        (Inl err, r') \<Rightarrow> (Some err, r')
      | (Inr h, r') \<Rightarrow> (None, r'\<lparr>fs := fsHandle (fs r') h\<rparr>))"

section \<open>The resolver for middlewares: parseMiddlewareFast, parseMiddleware, Use\<close>

definition parseMiddlewareFast :: "'s any \<Rightarrow> gtype option \<Rightarrow> error + 's Middleware option" where
  "parseMiddlewareFast mw typ =
     (case typ of
        None \<Rightarrow> Inl (RuntimePanic ''invalid memory address or nil pointer dereference'')
      | Some t \<Rightarrow>
          if t = typEmptyFunc then
            Inr (Some (\<lambda>ctx handler. andThen (Call mw []) (handler ctx)))
          else if t = typHandler then
            Inr (Some (\<lambda>ctx handler. andThen (Call mw [ACtx ctx]) (handler ctx)))
          else if t = typHandlerFunc then
            Inr (Some (\<lambda>ctx handler. andThen (Call mw [ACtx ctx]) (handler ctx)))
          else if t = typMiddleware then
            Inr (Some (\<lambda>ctx handler. Call mw [ACtx ctx, AFunc1 handler]))
          else if t = typMiddlewareFunc then
            Inr (Some (\<lambda>ctx handler. Call mw [ACtx ctx, AFunc1 handler]))
          else if ConvertibleTo t typEmptyFunc then
            Inr (Some (\<lambda>ctx handler. andThen (Call mw []) (handler ctx)))
          else if ConvertibleTo t typHandler then
            Inr (Some (\<lambda>ctx handler. andThen (Call mw [ACtx ctx]) (handler ctx)))
          else if ConvertibleTo t typMiddleware then
            Inr (if IsNil mw then None
                 else Some (\<lambda>ctx handler. Call mw [ACtx ctx, AFunc1 handler]))
          else Inr None)"

definition parseMiddleware ::
  "env \<Rightarrow> 's Router \<Rightarrow> 's any \<Rightarrow> (error + 's Middleware) \<times> 's Router" where
  "parseMiddleware env r mw =
     (let typ = TypeOf mw
      in case parseMiddlewareFast mw typ of
           Inl err \<Rightarrow> (Inl err, r)
         | Inr (Some m) \<Rightarrow> (Inr m, r)
         | Inr None \<Rightarrow>
            (case typ of
               None \<Rightarrow> (Inl (ErrorNew ''middleware must be a func''), r)
             | Some t \<Rightarrow>
                 if \<not> isFunc t then (Inl (ErrorNew ''middleware must be a func''), r)
                 else if NumOut t \<noteq> 0 then
                   (Inl (ErrorNew ''middleware func must return nothing''), r)
                 else if NumIn t > 3 then
                   (Inl (ErrorNew ''middleware func can only receive no more than 3 args in''), r)
                 else if NumIn t = 0 then
                   (Inr (\<lambda>ctx handler. andThen (Call mw []) (handler ctx)), r)
                 else
                   let arg0 = In t ! 0
                   in if NumIn t = 1 then
                        (if arg0 = typEmptyFunc \<or> ConvertibleTo arg0 typEmptyFunc then
                           (Inr (\<lambda>ctx handler. Call mw [AFunc0 (handler ctx)]), r)
                         else
                           (case parseFuncArgs env r arg0 ''middleware'' of
                              (Inl err, r') \<Rightarrow> (Inl err, r')
                            | (Inr param, r') \<Rightarrow>
                                (Inr (\<lambda>ctx handler.
                                        andThen (Call mw [AParam param]) (handler ctx)), r')))
                      else
                        let arg1 = In t ! 1
                        in if NumIn t = 2 then
                             (if arg0 = typContext then
                                (if arg1 = typEmptyFunc \<or> ConvertibleTo arg1 typEmptyFunc then
                                   (Inr (\<lambda>ctx handler.
                                           Call mw [ACtx ctx, AFunc0 (handler ctx)]), r)
                                 else if arg1 = typHandler \<or> ConvertibleTo arg1 typHandler then
                                   (Inr (\<lambda>ctx handler. Call mw [ACtx ctx, AFunc1 handler]), r)
                                 else
                                   (case parseFuncArgs env r arg0 ''middleware'' of
                                      (Inl err, r') \<Rightarrow> (Inl err, r')
                                    | (Inr param, r') \<Rightarrow>
                                        (Inr (\<lambda>ctx handler.
                                                andThen (Call mw [ACtx ctx, AParam param])
                                                  (handler ctx)), r')))
                              else if \<not> ConvertibleTo arg1 typEmptyFunc then
                                (Inl (ErrorNew ''middleware func with option and handler, the handler must be a func with 0 args and 0 returns''), r)
                              else
                                (case parseFuncArgs env r arg0 ''middleware'' of
                                   (Inl err, r') \<Rightarrow> (Inl err, r')
                                 | (Inr param, r') \<Rightarrow>
                                     (Inr (\<lambda>ctx handler.
                                             Call mw [AParam param, AFunc0 (handler ctx)]), r')))
                           else
                             let arg2 = In t ! 2
                             in if arg0 \<noteq> typContext then
                                  (Inl (ErrorNew ''middleware with context and option and handler, the first arg must be a context''), r)
                                else if \<not> (ConvertibleTo arg2 typEmptyFunc
                                            \<or> ConvertibleTo arg2 typHandler) then
                                  (Inl (ErrorNew ''middleware with context and option and handler, the second arg must be a func() or func(context)''), r)
                                else
                                  (case parseFuncArgs env r arg1 ''middleware'' of
                                     (Inl err, r') \<Rightarrow> (Inl err, r')
                                   | (Inr param, r') \<Rightarrow>
                                       if ConvertibleTo arg2 typEmptyFunc then
                                         (Inr (\<lambda>ctx handler.
                                                 Call mw [ACtx ctx, AParam param,
                                                          AFunc0 (handler ctx)]), r')
                                       else
                                         (Inr (\<lambda>ctx handler.
                                                 Call mw [ACtx ctx, AParam param,
                                                          AFunc1 handler]), r'))))"

text \<open>\<^verbatim>\<open>Use\<close> registers its arguments in turn and panics at the first that does not
  resolve.\<close>

fun Use :: "env \<Rightarrow> 's Router \<Rightarrow> 's any list \<Rightarrow> error option \<times> 's Router" where
  "Use env r [] = (None, r)"
| "Use env r (mw # middlewares) =
     (case parseMiddleware env r mw of
        (Inl err, r') \<Rightarrow> (Some err, r')
      | (Inr m, r') \<Rightarrow> Use env (r'\<lparr>fs := fsUse (fs r') m\<rparr>) middlewares)"

subsection \<open>The loops of parseDefault\<close>

lemma MapIndex_SetMapIndex:
  "MapIndex (SetMapIndex m k v) k' = (if k' = k then Some v else MapIndex m k')"
  by (induction m) auto

lemma parseDefault_map_step:
  assumes "Split elem sepKV = [kv0, kv1]"
    and "parseDefault env kt (TrimSpace kv0) sep = Inr key"
    and "parseDefault env vt (TrimSpace kv1) sep = Inr val"
  shows "parseDefault_map env kt vt (elem # elems) sepKV sep m =
    parseDefault_map env kt vt elems sepKV sep
      (if isSlice vt then
         (case MapIndex m (Convert env key kt) of
            Some ori \<Rightarrow> SetMapIndex m (Convert env key kt) (AppendSlice ori (Convert env val vt))
          | None \<Rightarrow> SetMapIndex m (Convert env key kt) (Convert env val vt))
       else SetMapIndex m (Convert env key kt) (Convert env val vt))"
  using assms by (simp add: parseDefault.simps)

lemma parseDefault_slice_result:
  "parseDefault_slice env et pieces sep ls = Inr v \<longleftrightarrow>
     (\<exists>xs. v = VSlice (ls @ xs)
        \<and> list_all2 (\<lambda>piece x. \<exists>y. parseDefault env et (TrimSpace piece) sep = Inr y
                                   \<and> x = Convert env y et) pieces xs)"
proof (induction pieces arbitrary: ls)
  case Nil
  show ?case by (auto simp: parseDefault.simps)
next
  case (Cons piece pieces)
  show ?case
  proof (cases "parseDefault env et (TrimSpace piece) sep")
    case (Inl e)
    then show ?thesis by (auto simp: parseDefault.simps list_all2_Cons1)
  next
    case (Inr y)
    then show ?thesis
      by (auto simp: parseDefault.simps list_all2_Cons1 Cons.IH)
  qed
qed

text \<open>The definitions to unfold when a coercion is evaluated on a literal.\<close>

lemmas eval_simps =
  parseDefault.simps Split_def TrimSpace_def trimRight_def spaces_def ParseInt_def ParseUint_def
  isDigit_def maxUint64_def Convert_def wrapSigned_def wrapUnsigned_def bitsOf_def signedKinds_def
  unsignedKinds_def isSlice_def isMap_def typDuration_def typDateTime_def Let_def

subsection \<open>The branches of parseTag and parseField\<close>

lemma parseTag_at_most_one:
  assumes "length (Get (Tag field) ''short'') \<le> 1"
  shows "parseTag env field =
      (if fst (Lookup (Tag field) ''dft'') \<noteq> [] then
         (case parseDefault env (Type field) (fst (Lookup (Tag field) ''dft''))
                 (map stringOfByte (TrimSpace (Get (Tag field) ''sep''))) of
            Inl err \<Rightarrow> Inl err
          | Inr dft \<Rightarrow>
              Inr \<lparr>Short = (if Get (Tag field) ''short'' \<noteq> [] then hd (Get (Tag field) ''short'')
                             else CHR 0x00),
                   Long = Get (Tag field) ''long'', Dft = Some dft,
                   ZeroDft = snd (Lookup (Tag field) ''dft''), Desc = Get (Tag field) ''desc'',
                   Sep = map stringOfByte (TrimSpace (Get (Tag field) ''sep''))\<rparr>)
       else Inr \<lparr>Short = (if Get (Tag field) ''short'' \<noteq> [] then hd (Get (Tag field) ''short'')
                           else CHR 0x00),
                 Long = Get (Tag field) ''long'', Dft = None,
                 ZeroDft = snd (Lookup (Tag field) ''dft''), Desc = Get (Tag field) ''desc'',
                 Sep = map stringOfByte (TrimSpace (Get (Tag field) ''sep''))\<rparr>)"
proof -
  have sep_eq: "(if s \<noteq> [] then map stringOfByte s else []) = map stringOfByte s" for s
    by simp
  show ?thesis
    unfolding parseTag_def Let_def sep_eq using assms by simp
qed

lemma parseTag_Inr_ids:
  assumes "length (Get (Tag field) ''short'') \<le> 1" and "parseTag env field = Inr t"
  shows "Short t = (if Get (Tag field) ''short'' \<noteq> [] then hd (Get (Tag field) ''short'')
                    else CHR 0x00)"
    and "Long t = Get (Tag field) ''long''"
  using assms(2) unfolding parseTag_at_most_one [OF assms(1)]
  by (auto split: if_splits sum.splits)

lemma parseTag_Inl_iff:
  assumes "length (Get (Tag field) ''short'') \<le> 1"
  shows "parseTag env field = Inl e \<longleftrightarrow>
      fst (Lookup (Tag field) ''dft'') \<noteq> []
      \<and> parseDefault env (Type field) (fst (Lookup (Tag field) ''dft''))
           (map stringOfByte (TrimSpace (Get (Tag field) ''sep''))) = Inl e"
  unfolding parseTag_at_most_one [OF assms]
  by (auto split: sum.splits)

text \<open>The options \<^verbatim>\<open>parseField\<close> passes to \<^verbatim>\<open>AnyVar\<close>.\<close>

definition optsOf :: "tag \<Rightarrow> Options list" where
  "optsOf t =
     (if length (Sep t) > 0 then [WithSliceSeperator (Sep t ! 0)] else [])
     @ (if length (Sep t) > 1 then [WithKeyValueSeperator (Sep t ! 1)] else [])
     @ [WithZeroDefault (ZeroDft t)]"

text \<open>
  What \<^verbatim>\<open>parseField\<close> does with a field, read off its branches: \<open>fieldErr\<close> is the
  error of tag parsing or default coercion, for an exported field; \<open>fieldBound\<close> says
  that the field is exported, that its tag parses and that it carries an identifier, so
  that \<^verbatim>\<open>AnyVar\<close> is reached; \<open>fieldVar\<close> is what \<^verbatim>\<open>AnyVar\<close> is then called with. None
  of them depends on the router.
\<close>

definition fieldErr :: "env \<Rightarrow> StructField \<Rightarrow> error option" where
  "fieldErr env field =
     (if IsExported field
      then (case parseTag env field of Inl err \<Rightarrow> Some err | Inr t \<Rightarrow> None)
      else None)"

definition fieldBound :: "env \<Rightarrow> StructField \<Rightarrow> bool" where
  "fieldBound env field =
     (IsExported field \<and>
      (case parseTag env field of
         Inl err \<Rightarrow> False
       | Inr t \<Rightarrow> \<not> (Short t = CHR 0x00 \<and> Long t = [])))"

definition fieldVar :: "env \<Rightarrow> StructField \<Rightarrow> nat \<times> nat \<Rightarrow> var" where
  "fieldVar env field val =
     (case parseTag env field of
        Inr t \<Rightarrow>
          \<lparr>Ptr = val, ShortName = Short t, LongName = Long t,
           Default = (case Dft t of None \<Rightarrow> None
                      | Some d \<Rightarrow> Some (Convert env d (Type field))),
           Usage = Desc t, Opts = optsOf t\<rparr>
      | Inl err \<Rightarrow>
          \<lparr>Ptr = val, ShortName = CHR 0x00, LongName = [], Default = None, Usage = [],
           Opts = []\<rparr>)"

lemma parseField_unexported: "\<not> IsExported field \<Longrightarrow> parseField env r field val = (None, r)"
  by (simp add: parseField_def)

lemma parseField_eq:
  "parseField env r field val =
    (case fieldErr env field of
       Some err \<Rightarrow> (Some err, r)
     | None \<Rightarrow>
         if \<not> fieldBound env field then (None, r)
         else (case duplicated (Vars (fs r)) (fieldVar env field val) of
                 Some err \<Rightarrow> (Some err, r)
               | None \<Rightarrow>
                   (None, r\<lparr>fs := (fs r)\<lparr>Vars := Vars (fs r) @ [fieldVar env field val]\<rparr>\<rparr>)))"
proof (cases "IsExported field")
  case False
  then show ?thesis
    by (simp add: parseField_def fieldErr_def fieldBound_def)
next
  case True
  show ?thesis
  proof (cases "parseTag env field")
    case (Inl err)
    with True show ?thesis
      by (simp add: parseField_def fieldErr_def)
  next
    case (Inr t)
    show ?thesis
    proof (cases "Short t = CHR 0x00 \<and> Long t = []")
      case skip: True
      with True Inr show ?thesis
        by (simp add: parseField_def fieldErr_def fieldBound_def)
    next
      case bind: False
      have v: "fieldVar env field val =
          \<lparr>Ptr = val, ShortName = Short t, LongName = Long t,
           Default = (case Dft t of None \<Rightarrow> None
                      | Some d \<Rightarrow> Some (Convert env d (Type field))),
           Usage = Desc t, Opts = optsOf t\<rparr>"
        by (simp add: fieldVar_def Inr)
      from True Inr bind have "parseField env r field val =
          (case AnyVar (fs r) val (Short t) (Long t)
                  (case Dft t of None \<Rightarrow> None | Some d \<Rightarrow> Some (Convert env d (Type field)))
                  (Desc t) (optsOf t) of
             Inl err \<Rightarrow> (Some err, r)
           | Inr f \<Rightarrow> (None, r\<lparr>fs := f\<rparr>))"
        by (auto simp: parseField_def Let_def optsOf_def)
      also have "\<dots> = (case duplicated (Vars (fs r)) (fieldVar env field val) of
                 Some err \<Rightarrow> (Some err, r)
               | None \<Rightarrow>
                   (None, r\<lparr>fs := (fs r)\<lparr>Vars := Vars (fs r) @ [fieldVar env field val]\<rparr>\<rparr>))"
        unfolding AnyVar_def Let_def v [symmetric]
        by (cases "duplicated (Vars (fs r)) (fieldVar env field val)") simp_all
      finally show ?thesis
        using True Inr bind by (simp add: fieldErr_def fieldBound_def)
    qed
  qed
qed

text \<open>
  \<open>fieldFails\<close> is the failure of \<^verbatim>\<open>parseField\<close> on a flag set that holds the
  registrations \<open>vars\<close>: the error of the tag, or the panic of the engine when the field
  is to be registered and one of its identifiers is taken. \<open>registrations\<close> are the
  registrations of the fields before index \<open>i\<close> that carry an identifier, in declaration
  order; \<open>regsFrom\<close> is the same list when the loop starts at index \<open>k\<close>.
\<close>

definition fieldFails :: "env \<Rightarrow> var list \<Rightarrow> StructField \<Rightarrow> nat \<times> nat \<Rightarrow> error option" where
  "fieldFails env vars field val =
     (case fieldErr env field of
        Some err \<Rightarrow> Some err
      | None \<Rightarrow> if fieldBound env field then duplicated vars (fieldVar env field val) else None)"

definition registrations :: "env \<Rightarrow> StructField list \<Rightarrow> nat \<Rightarrow> nat \<Rightarrow> var list" where
  "registrations env flds val i =
     map (\<lambda>j. fieldVar env (flds ! j) (val, j)) (filter (\<lambda>j. fieldBound env (flds ! j)) [0..<i])"

definition regsFrom :: "env \<Rightarrow> StructField list \<Rightarrow> nat \<Rightarrow> nat \<Rightarrow> nat \<Rightarrow> var list" where
  "regsFrom env flds val k i =
     map (\<lambda>j. fieldVar env (flds ! j) (val, k + j))
       (filter (\<lambda>j. fieldBound env (flds ! j)) [0..<i])"

lemma regsFrom_0: "regsFrom env flds val 0 i = registrations env flds val i"
  by (simp add: regsFrom_def registrations_def)

lemma parseField_fails:
  "parseField env r field val =
    (case fieldFails env (Vars (fs r)) field val of
       Some err \<Rightarrow> (Some err, r)
     | None \<Rightarrow>
         (None, r\<lparr>fs := (fs r)\<lparr>Vars := Vars (fs r)
                     @ (if fieldBound env field then [fieldVar env field val] else [])\<rparr>\<rparr>))"
  unfolding parseField_eq fieldFails_def
  by (simp split: option.splits)

lemma parseField_error_keeps:
  "parseField env r field val = (Some err, r') \<Longrightarrow> r' = r"
  unfolding parseField_fails by (auto split: option.splits)

lemma fst_parseField: "fst (parseField env r field val) = fieldFails env (Vars (fs r)) field val"
  unfolding parseField_fails by (simp split: option.splits)

lemma parseField_unbound:
  "\<not> fieldBound env field \<Longrightarrow> parseField env r field val = (fieldErr env field, r)"
  unfolding parseField_eq by (simp split: option.splits)

text \<open>The fields that are bound, and their registrations, in terms of the annotations.\<close>

lemma fieldBound_annotations:
  assumes "length (Get (Tag field) ''short'') \<le> 1"
  shows "fieldBound env field \<longleftrightarrow>
      IsExported field \<and> \<not> isl (parseTag env field)
      \<and> (Get (Tag field) ''long'' \<noteq> []
         \<or> (Get (Tag field) ''short'' \<noteq> [] \<and> hd (Get (Tag field) ''short'') \<noteq> CHR 0x00))"
proof (cases "parseTag env field")
  case (Inl e)
  then show ?thesis by (simp add: fieldBound_def)
next
  case (Inr t)
  with parseTag_Inr_ids [OF assms Inr] show ?thesis
    by (auto simp: fieldBound_def)
qed

lemma fieldVar_annotations:
  assumes "length (Get (Tag field) ''short'') \<le> 1" and "fieldBound env field"
  shows "Ptr (fieldVar env field val) = val"
    and "ShortName (fieldVar env field val) =
           (if Get (Tag field) ''short'' \<noteq> [] then hd (Get (Tag field) ''short'') else CHR 0x00)"
    and "LongName (fieldVar env field val) = Get (Tag field) ''long''"
proof -
  from assms(2) obtain t where t: "parseTag env field = Inr t"
    by (cases "parseTag env field") (simp_all add: fieldBound_def)
  note ids = parseTag_Inr_ids [OF assms(1) t]
  from t show "Ptr (fieldVar env field val) = val"
    by (simp add: fieldVar_def)
  from t ids show "ShortName (fieldVar env field val) =
           (if Get (Tag field) ''short'' \<noteq> [] then hd (Get (Tag field) ''short'') else CHR 0x00)"
    by (simp add: fieldVar_def)
  from t ids show "LongName (fieldVar env field val) = Get (Tag field) ''long''"
    by (simp add: fieldVar_def)
qed

text \<open>A field with a default literal: the tag fails with the error of the coercion, or
  the field is bound, when it carries an identifier, with the coerced value converted to
  its type.\<close>

lemma field_default_ok:
  assumes "IsExported field" and "length (Get (Tag field) ''short'') \<le> 1"
    and "fst (Lookup (Tag field) ''dft'') \<noteq> []"
    and "parseDefault env (Type field) (fst (Lookup (Tag field) ''dft''))
           (map stringOfByte (TrimSpace (Get (Tag field) ''sep''))) = Inr d"
  shows "fieldErr env field = None"
    and "fieldBound env field \<longleftrightarrow>
           (Get (Tag field) ''short'' \<noteq> [] \<and> hd (Get (Tag field) ''short'') \<noteq> CHR 0x00)
           \<or> Get (Tag field) ''long'' \<noteq> []"
    and "Ptr (fieldVar env field val) = val"
    and "ShortName (fieldVar env field val) =
           (if Get (Tag field) ''short'' \<noteq> [] then hd (Get (Tag field) ''short'') else CHR 0x00)"
    and "LongName (fieldVar env field val) = Get (Tag field) ''long''"
    and "Default (fieldVar env field val) = Some (Convert env d (Type field))"
proof -
  from assms(3,4) obtain t where t: "parseTag env field = Inr t" "Dft t = Some d"
    unfolding parseTag_at_most_one [OF assms(2)] by simp
  note ids = parseTag_Inr_ids [OF assms(2) t(1)]
  from t assms(1) show "fieldErr env field = None"
    by (simp add: fieldErr_def)
  from t assms(1) ids show "fieldBound env field \<longleftrightarrow>
           (Get (Tag field) ''short'' \<noteq> [] \<and> hd (Get (Tag field) ''short'') \<noteq> CHR 0x00)
           \<or> Get (Tag field) ''long'' \<noteq> []"
    by (auto simp: fieldBound_def)
  from t show "Ptr (fieldVar env field val) = val"
    by (simp add: fieldVar_def)
  from t ids show "ShortName (fieldVar env field val) =
           (if Get (Tag field) ''short'' \<noteq> [] then hd (Get (Tag field) ''short'') else CHR 0x00)"
    by (simp add: fieldVar_def)
  from t ids show "LongName (fieldVar env field val) = Get (Tag field) ''long''"
    by (simp add: fieldVar_def)
  from t show "Default (fieldVar env field val) = Some (Convert env d (Type field))"
    by (simp add: fieldVar_def)
qed

lemma field_default_error:
  assumes "IsExported field" and "length (Get (Tag field) ''short'') \<le> 1"
    and "fst (Lookup (Tag field) ''dft'') \<noteq> []"
    and "parseDefault env (Type field) (fst (Lookup (Tag field) ''dft''))
           (map stringOfByte (TrimSpace (Get (Tag field) ''sep''))) = Inl e"
  shows "parseField env r field val = (Some e, r)"
proof -
  from assms(3,4) have "parseTag env field = Inl e"
    by (simp add: parseTag_Inl_iff [OF assms(2)])
  with assms(1) show ?thesis
    by (simp add: parseField_eq fieldErr_def)
qed

text \<open>The loop fails exactly at a field that fails once the fields before it are bound.\<close>

lemma parseOptions_loop_error:
  "parseOptions_loop env r flds val k = (Some err, r') \<Longrightarrow>
   \<exists>i<length flds. parseOptions_loop env r (take i flds) val k = (None, r')
      \<and> parseField env r' (flds ! i) (val, k + i) = (Some err, r')"
proof (induction flds arbitrary: r k)
  case Nil
  then show ?case by simp
next
  case (Cons field flds)
  obtain e r1 where pf: "parseField env r field (val, k) = (e, r1)"
    by (cases "parseField env r field (val, k)")
  show ?case
  proof (cases e)
    case (Some err')
    with Cons.prems pf have "err' = err" "r1 = r'"
      by simp_all
    moreover from pf Some have "r1 = r"
      by (simp add: parseField_error_keeps)
    ultimately show ?thesis using Some pf
      by (intro exI [of _ 0]) simp
  next
    case None
    with Cons.prems pf have "parseOptions_loop env r1 flds val (Suc k) = (Some err, r')"
      by simp
    from Cons.IH [OF this] obtain i where i: "i < length flds"
      "parseOptions_loop env r1 (take i flds) val (Suc k) = (None, r')"
      "parseField env r' (flds ! i) (val, Suc k + i) = (Some err, r')"
      by blast
    with pf None show ?thesis
      by (intro exI [of _ "Suc i"]) simp
  qed
qed

lemma parseOptions_loop_fails:
  "i < length flds \<Longrightarrow> parseOptions_loop env r (take i flds) val k = (None, r') \<Longrightarrow>
   parseField env r' (flds ! i) (val, k + i) = (Some err, r'') \<Longrightarrow>
   parseOptions_loop env r flds val k = (Some err, r'')"
proof (induction flds arbitrary: r k i)
  case Nil
  then show ?case by simp
next
  case (Cons field flds)
  show ?case
  proof (cases i)
    case 0
    with Cons.prems show ?thesis by simp
  next
    case (Suc i')
    obtain e r1 where pf: "parseField env r field (val, k) = (e, r1)"
      by (cases "parseField env r field (val, k)")
    with Cons.prems(2) Suc have e: "e = None"
      and pre: "parseOptions_loop env r1 (take i' flds) val (Suc k) = (None, r')"
      by (simp_all split: option.splits)
    from Cons.prems(1,3) Suc have "i' < length flds"
      "parseField env r' (flds ! i') (val, Suc k + i') = (Some err, r'')"
      by simp_all
    from Cons.IH [OF this(1) pre this(2)] pf e show ?thesis
      by simp
  qed
qed

text \<open>The loop runs through exactly when no field fails on the registrations made for
  the fields before it, and then leaves the registrations of all fields that carry an
  identifier, after those that were there.\<close>

lemma regsFrom_Cons:
  "regsFrom env (field # flds) val k (Suc i) =
     (if fieldBound env field then [fieldVar env field (val, k)] else [])
     @ regsFrom env flds val (Suc k) i"
proof -
  have "filter (\<lambda>j. fieldBound env ((field # flds) ! j)) [0..<Suc i] =
      (if fieldBound env field then [0] else [])
      @ map Suc (filter (\<lambda>j. fieldBound env (flds ! j)) [0..<i])"
    by (simp add: upt_conv_Cons map_Suc_upt [symmetric] filter_map o_def del: upt_Suc)
  then show ?thesis
    by (simp add: regsFrom_def o_def)
qed

lemma regsFrom_take:
  "j \<le> i \<Longrightarrow> i \<le> length flds \<Longrightarrow> regsFrom env (take i flds) val k j = regsFrom env flds val k j"
proof -
  assume "j \<le> i" "i \<le> length flds"
  then have same: "take i flds ! n = flds ! n" if "n \<in> set [0..<j]" for n
    using that by simp
  have "filter (\<lambda>n. fieldBound env (take i flds ! n)) [0..<j]
      = filter (\<lambda>n. fieldBound env (flds ! n)) [0..<j]"
    by (rule filter_cong) (simp_all add: same)
  moreover have "map (\<lambda>n. fieldVar env (take i flds ! n) (val, k + n))
        (filter (\<lambda>n. fieldBound env (flds ! n)) [0..<j])
      = map (\<lambda>n. fieldVar env (flds ! n) (val, k + n))
        (filter (\<lambda>n. fieldBound env (flds ! n)) [0..<j])"
    by (rule map_cong) (simp_all add: same)
  ultimately show ?thesis
    by (simp add: regsFrom_def)
qed

lemma parseOptions_loop_None_iff:
  "parseOptions_loop env r flds val k = (None, r') \<longleftrightarrow>
     (\<forall>j<length flds.
         fieldFails env (Vars (fs r) @ regsFrom env flds val k j) (flds ! j) (val, k + j) = None)
     \<and> r' = r\<lparr>fs := (fs r)\<lparr>Vars := Vars (fs r) @ regsFrom env flds val k (length flds)\<rparr>\<rparr>"
proof (induction flds arbitrary: r k)
  case Nil
  show ?case
    by (auto simp: regsFrom_def)
next
  case (Cons field flds)
  let ?pre = "if fieldBound env field then [fieldVar env field (val, k)] else []"
  let ?r1 = "r\<lparr>fs := (fs r)\<lparr>Vars := Vars (fs r) @ ?pre\<rparr>\<rparr>"
  have zero: "regsFrom env (field # flds) val k 0 = []"
    by (simp add: regsFrom_def)
  show ?case
  proof (cases "fieldFails env (Vars (fs r)) field (val, k)")
    case (Some e)
    then have "parseOptions_loop env r (field # flds) val k = (Some e, r)"
      by (simp add: parseField_fails)
    moreover from Some have "\<not> (\<forall>j<length (field # flds).
         fieldFails env (Vars (fs r) @ regsFrom env (field # flds) val k j) ((field # flds) ! j)
           (val, k + j) = None)"
      by (auto simp: zero intro!: exI [of _ 0])
    ultimately show ?thesis by simp
  next
    case None
    then have step: "parseOptions_loop env r (field # flds) val k
        = parseOptions_loop env ?r1 flds val (Suc k)"
      by (simp add: parseField_fails)
    have all: "(\<forall>j<length (field # flds).
         fieldFails env (Vars (fs r) @ regsFrom env (field # flds) val k j) ((field # flds) ! j)
           (val, k + j) = None)
      \<longleftrightarrow> (\<forall>j<length flds.
         fieldFails env (Vars (fs ?r1) @ regsFrom env flds val (Suc k) j) (flds ! j)
           (val, Suc k + j) = None)"
      using None by (simp add: All_less_Suc2 zero regsFrom_Cons)
    have upd: "?r1\<lparr>fs := (fs ?r1)\<lparr>Vars := Vars (fs ?r1) @ regsFrom env flds val (Suc k) (length flds)\<rparr>\<rparr>
        = r\<lparr>fs := (fs r)\<lparr>Vars := Vars (fs r)
              @ regsFrom env (field # flds) val k (length (field # flds))\<rparr>\<rparr>"
      by (simp add: regsFrom_Cons)
    show ?thesis
      unfolding step Cons.IH all upd ..
  qed
qed

subsection \<open>Ranges of the parsed and of the converted integers\<close>

lemma ParseInt_range: "ParseInt s = Inr n \<Longrightarrow> - (2 ^ 63) \<le> n \<and> n < 2 ^ 63"
  by (auto simp: ParseInt_def Let_def split: if_splits sum.splits error.splits numerr.splits)

lemma parseDigits_range: "n \<le> maxUint64 \<Longrightarrow> parseDigits n cs = Inr m \<Longrightarrow> m \<le> maxUint64"
  by (induction n cs rule: parseDigits.induct) (auto simp: Let_def split: if_splits)

lemma ParseUint_range: "ParseUint s = Inr u \<Longrightarrow> u < 2 ^ 64"
proof -
  assume "ParseUint s = Inr u"
  then have "parseDigits 0 s = Inr u"
    by (auto simp: ParseUint_def split: if_splits sum.splits)
  then have "u \<le> maxUint64"
    using parseDigits_range [of 0 s u] by simp
  then show ?thesis by (simp add: maxUint64_def)
qed

text \<open>\<^verbatim>\<open>ParseUint\<close> and \<^verbatim>\<open>ParseInt\<close> succeed exactly on the decimal literals whose
  value fits 64 bits, with that value; on a string of digits the only error is the range
  error.\<close>

lemma foldl_digits_mono: "(n::nat) \<le> foldl (\<lambda>n c. n * 10 + (of_char c - 48)) n cs"
proof (induction cs arbitrary: n)
  case Nil
  show ?case by simp
next
  case (Cons c cs)
  have "n \<le> n * 10 + (of_char c - 48)"
    by simp
  also have "\<dots> \<le> foldl (\<lambda>n c. n * 10 + (of_char c - 48)) (n * 10 + (of_char c - 48)) cs"
    by (rule Cons.IH)
  finally show ?case by simp
qed

lemma parseDigits_Inr_iff:
  "parseDigits n cs = Inr m \<longleftrightarrow>
     list_all isDigit cs \<and> foldl (\<lambda>n c. n * 10 + (of_char c - 48)) n cs = m
     \<and> (cs = [] \<or> m \<le> maxUint64)"
proof (induction cs arbitrary: n)
  case Nil
  show ?case by auto
next
  case (Cons c cs)
  define n1 where "n1 = n * 10 + (of_char c - 48)"
  have step: "parseDigits n (c # cs) =
      (if \<not> isDigit c then Inl ErrSyntax
       else if n \<ge> maxUint64 div 10 + 1 then Inl ErrRange
       else if n1 > maxUint64 then Inl ErrRange else parseDigits n1 cs)"
    by (simp only: parseDigits.simps Let_def n1_def)
  have fold: "foldl (\<lambda>n c. n * 10 + (of_char c - 48)) n (c # cs)
      = foldl (\<lambda>n c. n * 10 + (of_char c - 48)) n1 cs"
    by (simp only: foldl_Cons n1_def)
  have mono: "n1 \<le> foldl (\<lambda>n c. n * 10 + (of_char c - 48)) n1 cs"
    by (rule foldl_digits_mono)
  have cutoff: "maxUint64 div 10 + 1 \<le> n \<Longrightarrow> maxUint64 < n1"
    unfolding n1_def maxUint64_def by simp
  show ?case
  proof (cases "isDigit c \<and> n1 \<le> maxUint64")
    case False
    with cutoff have "parseDigits n (c # cs) \<noteq> Inr m"
      unfolding step by auto
    moreover from False mono
    have "\<not> (list_all isDigit (c # cs)
        \<and> foldl (\<lambda>n c. n * 10 + (of_char c - 48)) n1 cs \<le> maxUint64)"
      by auto
    ultimately show ?thesis
      unfolding fold by auto
  next
    case True
    with cutoff have "\<not> maxUint64 div 10 + 1 \<le> n"
      by auto
    with True have "parseDigits n (c # cs) = parseDigits n1 cs"
      unfolding step by simp
    then show ?thesis
      unfolding fold using True Cons.IH [of n1] by auto
  qed
qed

lemma parseDigits_digits: "list_all isDigit cs \<Longrightarrow> parseDigits n cs \<noteq> Inl ErrSyntax"
  by (induction n cs rule: parseDigits.induct) (simp_all add: Let_def)

lemma ParseUint_Inr_iff:
  "ParseUint s = Inr u \<longleftrightarrow> isDecimal s \<and> decimalValue s = u \<and> u < 2 ^ 64"
proof (cases "s = []")
  case True
  then show ?thesis by (simp add: ParseUint_def isDecimal_def)
next
  case False
  then have "ParseUint s = Inr u \<longleftrightarrow> parseDigits 0 s = Inr u"
    by (simp add: ParseUint_def split: sum.splits)
  also have "\<dots> \<longleftrightarrow> isDecimal s \<and> decimalValue s = u \<and> u \<le> maxUint64"
    using False by (simp add: parseDigits_Inr_iff isDecimal_def decimalValue_def)
  also have "u \<le> maxUint64 \<longleftrightarrow> u < 2 ^ 64"
    by (simp add: maxUint64_def) arith
  finally show ?thesis .
qed

lemma ParseUint_Inl:
  "ParseUint s = Inl e \<Longrightarrow> \<exists>k. e = NumError ''ParseUint'' s k \<and> (isDecimal s \<longrightarrow> k = ErrRange)"
proof (cases "s = []")
  case True
  assume "ParseUint s = Inl e"
  with True show ?thesis by (auto simp: ParseUint_def isDecimal_def)
next
  case False
  assume "ParseUint s = Inl e"
  with False obtain k where k: "parseDigits 0 s = Inl k" "e = NumError ''ParseUint'' s k"
    by (auto simp: ParseUint_def split: sum.splits)
  from k(1) parseDigits_digits [of s 0] have "isDecimal s \<longrightarrow> k = ErrRange"
    by (cases k) (auto simp: isDecimal_def)
  with k(2) show ?thesis by simp
qed

lemma ParseInt_Inr_iff:
  "ParseInt s = Inr n \<longleftrightarrow>
     isDecimal (signedBody s) \<and> n = signedValue s \<and> - (2 ^ 63) \<le> n \<and> n < 2 ^ 63"
proof (cases "s = []")
  case True
  then show ?thesis by (simp add: ParseInt_def signedBody_def isDecimal_def)
next
  case False
  show ?thesis
  proof (cases "ParseUint (signedBody s)")
    case (Inl e)
    with ParseUint_Inr_iff [of "signedBody s" "decimalValue (signedBody s)"]
    have no: "\<not> (isDecimal (signedBody s) \<and> decimalValue (signedBody s) < 2 ^ 64)"
      by simp
    have "\<not> (isDecimal (signedBody s) \<and> - (2 ^ 63) \<le> signedValue s \<and> signedValue s < 2 ^ 63)"
    proof
      assume a: "isDecimal (signedBody s) \<and> - (2 ^ 63) \<le> signedValue s \<and> signedValue s < 2 ^ 63"
      then have "int (decimalValue (signedBody s)) \<le> 2 ^ 63"
        by (simp add: signedValue_def split: if_splits)
      then have "decimalValue (signedBody s) < 2 ^ 64"
        by simp
      with a no show False by simp
    qed
    moreover from Inl False have "ParseInt s \<noteq> Inr n"
      by (auto simp: ParseInt_def Let_def signedBody_def split: error.splits numerr.splits)
    ultimately show ?thesis by auto
  next
    case (Inr un)
    then have un: "isDecimal (signedBody s)" "decimalValue (signedBody s) = un"
      by (simp_all add: ParseUint_Inr_iff)
    from Inr False have "ParseInt s =
        (if \<not> hd s = CHR ''-'' \<and> un \<ge> 2 ^ 63 then Inl (NumError ''ParseInt'' s ErrRange)
         else if hd s = CHR ''-'' \<and> un > 2 ^ 63 then Inl (NumError ''ParseInt'' s ErrRange)
         else Inr (if hd s = CHR ''-'' then - int un else int un))"
      by (simp add: ParseInt_def Let_def signedBody_def)
    moreover from un False
    have "signedValue s = (if hd s = CHR ''-'' then - int un else int un)"
      by (simp add: signedValue_def)
    ultimately show ?thesis
      using un(1) by (auto split: if_splits)
  qed
qed

lemma ParseInt_Inl:
  "ParseInt s = Inl e \<Longrightarrow>
   \<exists>k. e = NumError ''ParseInt'' s k \<and> (isDecimal (signedBody s) \<longrightarrow> k = ErrRange)"
proof (cases "s = []")
  case True
  assume "ParseInt s = Inl e"
  with True show ?thesis by (auto simp: ParseInt_def signedBody_def isDecimal_def)
next
  case False
  assume e: "ParseInt s = Inl e"
  show ?thesis
  proof (cases "ParseUint (signedBody s)")
    case (Inl e')
    from ParseUint_Inl [OF Inl] obtain k where k: "e' = NumError ''ParseUint'' (signedBody s) k"
      "isDecimal (signedBody s) \<longrightarrow> k = ErrRange"
      by blast
    from e False Inl k(1) have "e = NumError ''ParseInt'' s k"
      by (cases k) (auto simp: ParseInt_def Let_def signedBody_def)
    with k(2) show ?thesis by simp
  next
    case (Inr un)
    with e False show ?thesis
      by (auto simp: ParseInt_def Let_def signedBody_def split: if_splits)
  qed
qed

lemma wrapSigned_mod: "wrapSigned w n mod 2 ^ w = n mod 2 ^ w"
  by (simp add: wrapSigned_def mod_diff_left_eq)

lemma wrapSigned_range:
  assumes "0 < w"
  shows "- (2 ^ (w - 1)) \<le> wrapSigned w n \<and> wrapSigned w n < 2 ^ (w - 1)"
proof -
  from assms obtain k where w: "w = Suc k" by (cases w) auto
  have "0 \<le> (n + 2 ^ k) mod 2 ^ Suc k" "(n + 2 ^ k) mod 2 ^ Suc k < (2::int) ^ Suc k"
    by simp_all
  then show ?thesis
    by (simp add: wrapSigned_def w)
qed

subsection \<open>The paths through the middleware resolver\<close>

lemma func_shape: "isFunc t \<Longrightarrow> underlying t = TFunc (In t) (Out t)"
  by (auto simp: isFunc_def In_def Out_def split: gtype.splits)

lemmas fixed_types =
  typContext_def typEmptyFunc_def typHandlerFunc_def typHandler_def typMiddlewareFunc_def
  typMiddleware_def

lemma fast_M0:
  assumes "underlying t = TFunc [] []"
  shows "parseMiddlewareFast mw (Some t) =
    Inr (Some (\<lambda>ctx handler. andThen (Call mw []) (handler ctx)))"
proof -
  from assms have "t \<noteq> typHandler" "t \<noteq> typHandlerFunc" "t \<noteq> typMiddleware"
    "t \<noteq> typMiddlewareFunc" "ConvertibleTo t typEmptyFunc"
    by (auto simp: fixed_types ConvertibleTo_def)
  then show ?thesis
    by (simp add: parseMiddlewareFast_def)
qed

lemma fast_M1_ctx:
  assumes "underlying t = TFunc [typContext] []"
  shows "parseMiddlewareFast mw (Some t) =
    Inr (Some (\<lambda>ctx handler. andThen (Call mw [ACtx ctx]) (handler ctx)))"
proof -
  from assms have "t \<noteq> typEmptyFunc" "t \<noteq> typMiddleware"
    "t \<noteq> typMiddlewareFunc" "\<not> ConvertibleTo t typEmptyFunc" "ConvertibleTo t typHandler"
    by (auto simp: fixed_types ConvertibleTo_def)
  then show ?thesis
    by (simp add: parseMiddlewareFast_def)
qed

text \<open>An options record, by value or by pointer, is none of the fixed types and is
  convertible to none of the function types.\<close>

lemma record_not_func:
  assumes "isStruct a \<or> (\<exists>e. underlying a = TPtr e \<and> isStruct e)"
  shows "a \<noteq> typContext" "a \<noteq> typEmptyFunc" "a \<noteq> typHandler"
    "\<not> ConvertibleTo a typEmptyFunc" "\<not> ConvertibleTo a typHandler"
  using assms
  by (auto simp: fixed_types ConvertibleTo_def isStruct_def split: gtype.splits)

lemma fast_none_1:
  assumes "underlying t = TFunc [a] []" and "a \<noteq> typContext"
  shows "parseMiddlewareFast mw (Some t) = Inr None"
proof -
  from assms have "t \<noteq> typEmptyFunc" "t \<noteq> typHandler" "t \<noteq> typHandlerFunc" "t \<noteq> typMiddleware"
    "t \<noteq> typMiddlewareFunc" "\<not> ConvertibleTo t typEmptyFunc" "\<not> ConvertibleTo t typHandler"
    "\<not> ConvertibleTo t typMiddleware"
    by (auto simp: fixed_types ConvertibleTo_def)
  then show ?thesis
    by (simp add: parseMiddlewareFast_def)
qed

lemma fast_none_2:
  assumes "underlying t = TFunc [a, b] []" and "b \<noteq> typHandler"
  shows "parseMiddlewareFast mw (Some t) = Inr None"
proof -
  from assms have "t \<noteq> typEmptyFunc" "t \<noteq> typHandler" "t \<noteq> typHandlerFunc" "t \<noteq> typMiddleware"
    "t \<noteq> typMiddlewareFunc" "\<not> ConvertibleTo t typEmptyFunc" "\<not> ConvertibleTo t typHandler"
    "\<not> ConvertibleTo t typMiddleware"
    by (auto simp: fixed_types ConvertibleTo_def)
  then show ?thesis
    by (simp add: parseMiddlewareFast_def)
qed

lemma slow_M1_opt:
  assumes "TypeOf mw = Some t" and "isFunc t" and "Out t = []" and "In t = [a]"
    and "isStruct a \<or> (\<exists>e. underlying a = TPtr e \<and> isStruct e)"
  shows "parseMiddleware env r mw =
    (case parseFuncArgs env r a ''middleware'' of
       (Inl err, r') \<Rightarrow> (Inl err, r')
     | (Inr param, r') \<Rightarrow>
         (Inr (\<lambda>ctx handler. andThen (Call mw [AParam param]) (handler ctx)), r'))"
proof -
  from func_shape [OF assms(2)] assms(3,4) have u: "underlying t = TFunc [a] []"
    by simp
  note rec = record_not_func [OF assms(5)]
  from fast_none_1 [OF u rec(1)] have "parseMiddlewareFast mw (Some t) = Inr None" .
  with assms(1-4) rec show ?thesis
    by (simp add: parseMiddleware_def NumIn_def NumOut_def)
qed

lemma slow_M2_ctx_opt:
  assumes "TypeOf mw = Some t" and "isFunc t" and "Out t = []" and "In t = [typContext, a]"
    and "isStruct a \<or> (\<exists>e. underlying a = TPtr e \<and> isStruct e)"
  shows "parseMiddleware env r mw =
    (case parseFuncArgs env r typContext ''middleware'' of
       (Inl err, r') \<Rightarrow> (Inl err, r')
     | (Inr param, r') \<Rightarrow>
         (Inr (\<lambda>ctx handler. andThen (Call mw [ACtx ctx, AParam param]) (handler ctx)), r'))"
proof -
  from func_shape [OF assms(2)] assms(3,4) have u: "underlying t = TFunc [typContext, a] []"
    by simp
  note rec = record_not_func [OF assms(5)]
  from fast_none_2 [OF u rec(3)] have "parseMiddlewareFast mw (Some t) = Inr None" .
  with assms(1-4) rec show ?thesis
    by (simp add: parseMiddleware_def NumIn_def NumOut_def)
qed

lemma parseFuncArgs_context:
  "parseFuncArgs env r typContext who = (Inl (ArgMustBeStruct who), r)"
  by (simp add: parseFuncArgs_def typContext_def isStruct_def)

subsection \<open>The fast path of the handler resolver on a named function type\<close>

lemma fast_handler_named:
  assumes "underlying t = TFunc [typContext] []" and "t \<noteq> typHandler" and "t \<noteq> typHandlerFunc"
  shows "parseFuncFast fn (Some t) =
    Inl (RuntimePanic ''reflect.Value.Convert: value cannot be converted to type func()'')"
proof -
  from assms(1) have "t \<noteq> typEmptyFunc" "\<not> ConvertibleTo t typEmptyFunc" "ConvertibleTo t typHandler"
    by (auto simp: fixed_types ConvertibleTo_def)
  with assms(2,3) show ?thesis
    by (simp add: parseFuncFast_def)
qed

section \<open>Concrete inputs\<close>

text \<open>
  An environment without user-defined parsers on a 64-bit platform, whose floating-point,
  duration and time parsers accept everything and keep the text; an environment in which
  \<^verbatim>\<open>*time.Duration\<close> has a \<^verbatim>\<open>ParseFlag\<close> method of its own; an empty router.
\<close>

definition env0 :: env where
  "env0 = \<lparr>ParseFlag = (\<lambda>t. None), ParseFloat = (\<lambda>s. Inr (VOpaque s)),
            ParseDuration = (\<lambda>s. Inr (VOpaque s)), ParseInLocation = (\<lambda>s. Inr (VOpaque s)),
            IntSize = 64\<rparr>"

definition textDuration :: "string \<Rightarrow> string + gvalue" where
  "textDuration s = (if s = ''soon'' then Inr (VInt 5) else Inl ''not a moment'')"

definition envHook :: env where
  "envHook = env0\<lparr>ParseFlag := (\<lambda>t. if t = typDuration then Some textDuration else None)\<rparr>"

text \<open>
  To observe calls, the program state is a log of events: a callable that records what it
  was called with, and a continuation that records the context it was given.
\<close>

datatype shape = SCtx ctx | SParam param | SFunc0 | SFunc1

datatype event = Invoked "shape list" | Continued ctx

fun shapeOf :: "'s arg \<Rightarrow> shape" where
  "shapeOf (ACtx c) = SCtx c"
| "shapeOf (AParam p) = SParam p"
| "shapeOf (AFunc0 f) = SFunc0"
| "shapeOf (AFunc1 h) = SFunc1"

definition logCall :: "event list arg list \<Rightarrow> event list \<Rightarrow> event list" where
  "logCall args s = s @ [Invoked (map shapeOf args)]"

definition logNext :: "event list Handler" where
  "logNext c s = s @ [Continued c]"

definition r0 :: "event list Router" where
  "r0 = \<lparr>fs = \<lparr>Vars = [], Middlewares = [], Exec = None\<rparr>, heap = 0\<rparr>"

text \<open>Fields \<^verbatim>\<open>A int `short:"a"`\<close>, \<^verbatim>\<open>B int `short:"bb"`\<close>,
  \<^verbatim>\<open>L int `long:"all"`\<close> and \<^verbatim>\<open>A2 int `short:"a"`\<close>.\<close>

definition fieldA :: StructField where
  "fieldA = StructField ''A'' True (TBasic KInt) [(''short'', ''a'')]"

definition fieldB :: StructField where
  "fieldB = StructField ''B'' True (TBasic KInt) [(''short'', ''bb'')]"

definition fieldL :: StructField where
  "fieldL = StructField ''L'' True (TBasic KInt) [(''long'', ''all'')]"

definition fieldA2 :: StructField where
  "fieldA2 = StructField ''A2'' True (TBasic KInt) [(''short'', ''a'')]"

text \<open>Fields \<^verbatim>\<open>X int8 `short:"x" dft:"300"`\<close>, \<^verbatim>\<open>Y uint16 `long:"y" dft:"65537"`\<close>,
  \<^verbatim>\<open>W int32 `long:"w" dft:"70000"`\<close> and
  \<^verbatim>\<open>V int64 `short:"v" dft:"9223372036854775808"`\<close>.\<close>

definition fieldX :: StructField where
  "fieldX = StructField ''X'' True (TBasic KInt8) [(''short'', ''x''), (''dft'', ''300'')]"

definition fieldY :: StructField where
  "fieldY = StructField ''Y'' True (TBasic KUint16) [(''long'', ''y''), (''dft'', ''65537'')]"

definition fieldW :: StructField where
  "fieldW = StructField ''W'' True (TBasic KInt32) [(''long'', ''w''), (''dft'', ''70000'')]"

definition fieldV :: StructField where
  "fieldV = StructField ''V'' True (TBasic KInt64)
              [(''short'', ''v''), (''dft'', ''9223372036854775808'')]"

text \<open>Fields \<^verbatim>\<open>D int `dft:"x"`\<close>, \<^verbatim>\<open>E int `dft:"5" desc:"plain"`\<close> and
  \<^verbatim>\<open>u int `short:"uu" dft:"x"`\<close>; the router after \<^verbatim>\<open>A\<close> has been bound in the
  first instance.\<close>

definition fieldD :: StructField where
  "fieldD = StructField ''D'' True (TBasic KInt) [(''dft'', ''x'')]"

definition fieldE :: StructField where
  "fieldE = StructField ''E'' True (TBasic KInt) [(''dft'', ''5''), (''desc'', ''plain'')]"

definition fieldU :: StructField where
  "fieldU = StructField ''u'' False (TBasic KInt) [(''short'', ''uu''), (''dft'', ''x'')]"

definition boundA :: "event list Router" where
  "boundA = \<lparr>fs = \<lparr>Vars = [\<lparr>Ptr = (0, 0), ShortName = CHR ''a'', LongName = [], Default = None,
                                Usage = [], Opts = [WithZeroDefault False]\<rparr>],
                    Middlewares = [], Exec = None\<rparr>, heap = 1\<rparr>"

section \<open>Properties of default coercion and tag parsing\<close>

text \<open>
  C9. Whenever the declared type has the parse-from-text capability
  (\<open>ParseFlag env ty = Some hook\<close>), \<open>parseDefault\<close> returns what the hook returns,
  value or error, for every type \<open>ty\<close>: also for \<^verbatim>\<open>time.Duration\<close>,
  \<^verbatim>\<open>time.Time\<close> and the types of the kinds the built-in rules cover.
\<close>

theorem parser_hook_takes_precedence:
  assumes "ParseFlag env ty = Some hook"
  shows "parseDefault env ty dft sep =
           (case hook dft of Inl msg \<Rightarrow> Inl (Foreign msg) | Inr v \<Rightarrow> Inr v)"
proof -
  have "parseDefault env ty dft sep = foreign (hook dft)"
    using assms by (rule parseDefault_hook)
  then show ?thesis
    by (simp add: foreign_def)
qed

text \<open>With a parser of its own, \<^verbatim>\<open>time.Duration\<close> no longer reads \<^verbatim>\<open>"1s"\<close>.\<close>

theorem parser_hook_takes_precedence_witness:
  "ParseFlag envHook typDuration = Some textDuration
   \<and> parseDefault envHook typDuration ''soon'' [] = Inr (VInt 5)
   \<and> parseDefault envHook typDuration ''1s'' [] = Inl (Foreign ''not a moment'')"
proof -
  have h: "ParseFlag envHook typDuration = Some textDuration"
    by (simp add: envHook_def)
  show ?thesis
    using h parser_hook_takes_precedence [OF h, of "''soon''" "[]"]
      parser_hook_takes_precedence [OF h, of "''1s''" "[]"]
    by (simp add: textDuration_def)
qed

text \<open>
  C7. \<open>parseTag\<close> fails with the invalid-short-tag error exactly when the \<^verbatim>\<open>short\<close>
  annotation is longer than one byte, and the error carries the annotation. A one-byte
  annotation gives that byte as the short identifier; an absent or empty one gives the
  zero byte, which stands for no identifier. With an annotation of at most one byte the
  only error \<open>parseTag\<close> can return is that of the coercion of a non-empty \<^verbatim>\<open>dft\<close>
  literal. Lengths are lengths in bytes, as \<^verbatim>\<open>len\<close> counts them.
\<close>

theorem parseTag_short_annotation:
  "(1 < length (Get (Tag field) ''short'') \<longrightarrow>
      parseTag env field = Inl (InvalidShortTag (Get (Tag field) ''short'')))
   \<and> (length (Get (Tag field) ''short'') \<le> 1 \<longrightarrow>
        (\<forall>s. parseTag env field \<noteq> Inl (InvalidShortTag s)))
   \<and> (\<forall>c t. Get (Tag field) ''short'' = [c] \<and> parseTag env field = Inr t \<longrightarrow> Short t = c)
   \<and> (\<forall>t. Get (Tag field) ''short'' = [] \<and> parseTag env field = Inr t \<longrightarrow> Short t = CHR 0x00)
   \<and> (length (Get (Tag field) ''short'') \<le> 1 \<longrightarrow>
        (\<forall>e. parseTag env field = Inl e \<longleftrightarrow>
           fst (Lookup (Tag field) ''dft'') \<noteq> []
           \<and> parseDefault env (Type field) (fst (Lookup (Tag field) ''dft''))
                (map stringOfByte (TrimSpace (Get (Tag field) ''sep''))) = Inl e))"
proof -
  let ?short = "Get (Tag field) ''short''"
  let ?dft = "fst (Lookup (Tag field) ''dft'')"
  let ?sep = "map stringOfByte (TrimSpace (Get (Tag field) ''sep''))"
  let ?coerced = "parseDefault env (Type field) ?dft ?sep"
  have long: "1 < length ?short \<Longrightarrow> parseTag env field = Inl (InvalidShortTag ?short)"
    by (auto simp: parseTag_def Let_def)
  have err: "parseTag env field = Inl e \<longleftrightarrow> ?dft \<noteq> [] \<and> ?coerced = Inl e"
    if "length ?short \<le> 1" for e
    using that by (rule parseTag_Inl_iff)
  have noshort: "parseTag env field \<noteq> Inl (InvalidShortTag s)" if "length ?short \<le> 1" for s
  proof
    assume "parseTag env field = Inl (InvalidShortTag s)"
    with err [OF that, of "InvalidShortTag s"] have "?coerced = Inl (InvalidShortTag s)"
      by blast
    with parseDefault_no_isInvalidShortTag(1) [of env "Type field" ?dft ?sep]
    show False by (simp add: isInvalidShortTag_def)
  qed
  have one: "Short t = c" if "?short = [c]" "parseTag env field = Inr t" for c t
    using parseTag_Inr_ids(1) [of field env t] that by simp
  have none: "Short t = CHR 0x00" if "?short = []" "parseTag env field = Inr t" for t
    using parseTag_Inr_ids(1) [of field env t] that by simp
  from long noshort one none err show ?thesis by blast
qed

theorem parseTag_short_annotation_witness:
  "parseTag env0 fieldB = Inl (InvalidShortTag ''bb'')
   \<and> (\<exists>t. parseTag env0 fieldA = Inr t \<and> Short t = CHR ''a'')
   \<and> (\<exists>t. parseTag env0 fieldL = Inr t \<and> Short t = CHR 0x00)"
proof -
  have b: "Get (Tag fieldB) ''short'' = ''bb''"
    and a: "Get (Tag fieldA) ''short'' = ''a''"
    and l: "Get (Tag fieldL) ''short'' = []"
    by (simp_all add: fieldA_def fieldB_def fieldL_def Get_def)
  have nodft: "fst (Lookup (Tag fieldA) ''dft'') = []" "fst (Lookup (Tag fieldL) ''dft'') = []"
    by (simp_all add: fieldA_def fieldL_def)
  from parseTag_short_annotation [of fieldB env0] b
  have "parseTag env0 fieldB = Inl (InvalidShortTag ''bb'')"
    by simp
  moreover from parseTag_short_annotation [of fieldA env0] a nodft(1)
  have "\<exists>t. parseTag env0 fieldA = Inr t \<and> Short t = CHR ''a''"
    by (cases "parseTag env0 fieldA") simp_all
  moreover from parseTag_short_annotation [of fieldL env0] l nodft(2)
  have "\<exists>t. parseTag env0 fieldL = Inr t \<and> Short t = CHR 0x00"
    by (cases "parseTag env0 fieldL") simp_all
  ultimately show ?thesis by blast
qed

text \<open>
  C5. In a map whose value type is a slice, an entry whose key is already stored appends
  its list to the list stored under that key and leaves every other key as it was. With
  the default separators and no user-defined parser, the literal
  \<^verbatim>\<open>"a:1,a:2,a:3,b:4,b:5,b:6"\<close> against \<^verbatim>\<open>map[string][]int\<close> yields the map with
  exactly the two entries \<^verbatim>\<open>a: [1,2,3]\<close> and \<^verbatim>\<open>b: [4,5,6]\<close>.
\<close>

theorem map_of_lists_accumulates:
  "(isSlice vt \<and> Split elem sepKV = [kv0, kv1]
      \<and> parseDefault env kt (TrimSpace kv0) sep = Inr key
      \<and> parseDefault env vt (TrimSpace kv1) sep = Inr val
      \<and> MapIndex m (Convert env key kt) = Some (VSlice ori)
      \<and> Convert env val vt = VSlice new
    \<longrightarrow> (\<exists>m'. parseDefault_map env kt vt (elem # elems) sepKV sep m =
                 parseDefault_map env kt vt elems sepKV sep m'
             \<and> MapIndex m' (Convert env key kt) = Some (VSlice (ori @ new))
             \<and> (\<forall>k. k \<noteq> Convert env key kt \<longrightarrow> MapIndex m' k = MapIndex m k)))
   \<and> (ParseFlag env' = (\<lambda>t. None) \<and> (IntSize env' = 32 \<or> IntSize env' = 64)
    \<longrightarrow> parseDefault env' (TMap (TBasic KString) (TSlice (TBasic KInt)))
          ''a:1,a:2,a:3,b:4,b:5,b:6'' [] =
        Inr (VMap [(VString ''a'', VSlice [VInt 1, VInt 2, VInt 3]),
                   (VString ''b'', VSlice [VInt 4, VInt 5, VInt 6])]))"
proof (intro conjI impI)
  assume a: "isSlice vt \<and> Split elem sepKV = [kv0, kv1]
      \<and> parseDefault env kt (TrimSpace kv0) sep = Inr key
      \<and> parseDefault env vt (TrimSpace kv1) sep = Inr val
      \<and> MapIndex m (Convert env key kt) = Some (VSlice ori)
      \<and> Convert env val vt = VSlice new"
  let ?k = "Convert env key kt"
  let ?m' = "SetMapIndex m ?k (VSlice (ori @ new))"
  from a have "parseDefault_map env kt vt (elem # elems) sepKV sep m =
      parseDefault_map env kt vt elems sepKV sep ?m'"
    by (simp add: parseDefault_map_step)
  moreover have "MapIndex ?m' ?k = Some (VSlice (ori @ new))"
    by (simp add: MapIndex_SetMapIndex)
  moreover have "\<forall>k. k \<noteq> ?k \<longrightarrow> MapIndex ?m' k = MapIndex m k"
    by (simp add: MapIndex_SetMapIndex)
  ultimately show "\<exists>m'. parseDefault_map env kt vt (elem # elems) sepKV sep m =
                 parseDefault_map env kt vt elems sepKV sep m'
             \<and> MapIndex m' (Convert env key kt) = Some (VSlice (ori @ new))
             \<and> (\<forall>k. k \<noteq> Convert env key kt \<longrightarrow> MapIndex m' k = MapIndex m k)"
    by blast
next
  assume b: "ParseFlag env' = (\<lambda>t. None) \<and> (IntSize env' = 32 \<or> IntSize env' = 64)"
  then have hooks: "ParseFlag env' = (\<lambda>t. None)"
    and size: "IntSize env' = 32 \<or> IntSize env' = 64"
    by simp_all
  from size show "parseDefault env' (TMap (TBasic KString) (TSlice (TBasic KInt)))
          ''a:1,a:2,a:3,b:4,b:5,b:6'' [] =
        Inr (VMap [(VString ''a'', VSlice [VInt 1, VInt 2, VInt 3]),
                   (VString ''b'', VSlice [VInt 4, VInt 5, VInt 6])])"
  proof
    assume "IntSize env' = 32"
    with hooks show ?thesis by (simp add: eval_simps)
  next
    assume "IntSize env' = 64"
    with hooks show ?thesis by (simp add: eval_simps)
  qed
qed

theorem map_of_lists_accumulates_witness:
  "(\<exists>m'. parseDefault_map env0 (TBasic KString) (TSlice (TBasic KInt)) [''a:2''] '':'' []
            [(VString ''a'', VSlice [VInt 1])] = Inr (VMap m')
        \<and> MapIndex m' (VString ''a'') = Some (VSlice [VInt 1, VInt 2]))
   \<and> parseDefault env0 (TMap (TBasic KString) (TSlice (TBasic KInt)))
          ''a:1,a:2,a:3,b:4,b:5,b:6'' [] =
        Inr (VMap [(VString ''a'', VSlice [VInt 1, VInt 2, VInt 3]),
                   (VString ''b'', VSlice [VInt 4, VInt 5, VInt 6])])"
proof -
  let ?kt = "TBasic KString" and ?vt = "TSlice (TBasic KInt)"
  let ?m = "[(VString ''a'', VSlice [VInt 1])]"
  have hyps: "isSlice ?vt \<and> Split ''a:2'' '':'' = [''a'', ''2'']
      \<and> parseDefault env0 ?kt (TrimSpace ''a'') [] = Inr (VString ''a'')
      \<and> parseDefault env0 ?vt (TrimSpace ''2'') [] = Inr (VSlice [VInt 2])
      \<and> MapIndex ?m (Convert env0 (VString ''a'') ?kt) = Some (VSlice [VInt 1])
      \<and> Convert env0 (VSlice [VInt 2]) ?vt = VSlice [VInt 2]"
    by (simp add: eval_simps env0_def)
  have env: "ParseFlag env0 = (\<lambda>t. None) \<and> (IntSize env0 = 32 \<or> IntSize env0 = 64)"
    by (simp add: env0_def)
  note inst = map_of_lists_accumulates [of ?vt "''a:2''" "'':''" "''a''" "''2''" env0 ?kt "[]"
      "VString ''a''" "VSlice [VInt 2]" ?m "[VInt 1]" "[VInt 2]" "[]" env0]
  from inst hyps obtain m' where
    "parseDefault_map env0 ?kt ?vt [''a:2''] '':'' [] ?m = parseDefault_map env0 ?kt ?vt [] '':'' [] m'"
    "MapIndex m' (VString ''a'') = Some (VSlice [VInt 1, VInt 2])"
    by (auto simp: Convert_def)
  then have "\<exists>m'. parseDefault_map env0 ?kt ?vt [''a:2''] '':'' [] ?m = Inr (VMap m')
        \<and> MapIndex m' (VString ''a'') = Some (VSlice [VInt 1, VInt 2])"
    by (auto simp: parseDefault.simps)
  with inst env show ?thesis by blast
qed

text \<open>
  C6. For a slice type whose element type is a map, \<open>parseDefault\<close> splits the literal at
  the outer-list separator (the third separator when one is given and not empty, the
  semicolon otherwise) whatever the ordinary list separator is, and the result is the
  slice of the pieces, each trimmed and coerced as a value of the element type, in order.
  With the default separators and no user-defined parser, the literal
  \<^verbatim>\<open>"a:1,b:2,c:3;x:7,y:8,z:9"\<close> against \<^verbatim>\<open>[]map[string]int\<close> yields the two maps
  \<^verbatim>\<open>{a:1,b:2,c:3}\<close> and \<^verbatim>\<open>{x:7,y:8,z:9}\<close>.
\<close>

theorem slice_of_maps_outer_separator:
  "(ParseFlag env ty = None \<and> underlying ty = TSlice elemTyp \<and> isMap elemTyp
    \<longrightarrow> parseDefault env ty dft sep =
          parseDefault_slice env elemTyp
            (Split dft (if length sep > 2 \<and> sep ! 2 \<noteq> [] then sep ! 2 else '';'')) sep [])
   \<and> (\<forall>v. parseDefault_slice env elemTyp pieces sep [] = Inr v \<longleftrightarrow>
          (\<exists>xs. v = VSlice xs
             \<and> list_all2 (\<lambda>piece x. \<exists>y. parseDefault env elemTyp (TrimSpace piece) sep = Inr y
                                        \<and> x = Convert env y elemTyp) pieces xs))
   \<and> (ParseFlag env' = (\<lambda>t. None) \<and> (IntSize env' = 32 \<or> IntSize env' = 64)
    \<longrightarrow> parseDefault env' (TSlice (TMap (TBasic KString) (TBasic KInt)))
          ''a:1,b:2,c:3;x:7,y:8,z:9'' [] =
        Inr (VSlice
          [VMap [(VString ''a'', VInt 1), (VString ''b'', VInt 2), (VString ''c'', VInt 3)],
           VMap [(VString ''x'', VInt 7), (VString ''y'', VInt 8), (VString ''z'', VInt 9)]]))"
proof (intro conjI impI allI)
  assume "ParseFlag env ty = None \<and> underlying ty = TSlice elemTyp \<and> isMap elemTyp"
  then show "parseDefault env ty dft sep =
          parseDefault_slice env elemTyp
            (Split dft (if length sep > 2 \<and> sep ! 2 \<noteq> [] then sep ! 2 else '';'')) sep []"
    by (simp add: parseDefault_TSlice)
next
  fix v
  show "parseDefault_slice env elemTyp pieces sep [] = Inr v \<longleftrightarrow>
          (\<exists>xs. v = VSlice xs
             \<and> list_all2 (\<lambda>piece x. \<exists>y. parseDefault env elemTyp (TrimSpace piece) sep = Inr y
                                        \<and> x = Convert env y elemTyp) pieces xs)"
    using parseDefault_slice_result [of env elemTyp pieces sep "[]" v] by simp
next
  assume "ParseFlag env' = (\<lambda>t. None) \<and> (IntSize env' = 32 \<or> IntSize env' = 64)"
  then have hooks: "ParseFlag env' = (\<lambda>t. None)"
    and size: "IntSize env' = 32 \<or> IntSize env' = 64"
    by simp_all
  from size show "parseDefault env' (TSlice (TMap (TBasic KString) (TBasic KInt)))
          ''a:1,b:2,c:3;x:7,y:8,z:9'' [] =
        Inr (VSlice
          [VMap [(VString ''a'', VInt 1), (VString ''b'', VInt 2), (VString ''c'', VInt 3)],
           VMap [(VString ''x'', VInt 7), (VString ''y'', VInt 8), (VString ''z'', VInt 9)]])"
  proof
    assume "IntSize env' = 32"
    with hooks show ?thesis by (simp add: eval_simps)
  next
    assume "IntSize env' = 64"
    with hooks show ?thesis by (simp add: eval_simps)
  qed
qed

text \<open>The third separator overrides the semicolon; the first does not take part.\<close>

theorem slice_of_maps_outer_separator_witness:
  "parseDefault env0 (TSlice (TMap (TBasic KString) (TBasic KInt))) ''a=1 b=2|c=3'' ['' '', ''='', ''|'']
     = Inr (VSlice [VMap [(VString ''a'', VInt 1), (VString ''b'', VInt 2)],
                    VMap [(VString ''c'', VInt 3)]])
   \<and> parseDefault env0 (TSlice (TMap (TBasic KString) (TBasic KInt)))
          ''a:1,b:2,c:3;x:7,y:8,z:9'' [] =
        Inr (VSlice
          [VMap [(VString ''a'', VInt 1), (VString ''b'', VInt 2), (VString ''c'', VInt 3)],
           VMap [(VString ''x'', VInt 7), (VString ''y'', VInt 8), (VString ''z'', VInt 9)]])"
proof -
  let ?et = "TMap (TBasic KString) (TBasic KInt)"
  let ?sep = "['' '', ''='', ''|'']"
  have hyps: "ParseFlag env0 (TSlice ?et) = None \<and> underlying (TSlice ?et) = TSlice ?et \<and> isMap ?et"
    by (simp add: env0_def isMap_def)
  have env: "ParseFlag env0 = (\<lambda>t. None) \<and> (IntSize env0 = 32 \<or> IntSize env0 = 64)"
    by (simp add: env0_def)
  note inst = slice_of_maps_outer_separator [of env0 "TSlice ?et" ?et "''a=1 b=2|c=3''" ?sep "[]" env0]
  from inst hyps have "parseDefault env0 (TSlice ?et) ''a=1 b=2|c=3'' ?sep =
      parseDefault_slice env0 ?et (Split ''a=1 b=2|c=3'' ''|'') ?sep []"
    by simp
  also have "\<dots> = Inr (VSlice [VMap [(VString ''a'', VInt 1), (VString ''b'', VInt 2)],
                    VMap [(VString ''c'', VInt 3)]])"
    by (simp add: eval_simps env0_def)
  finally show ?thesis using inst env by blast
qed

section \<open>Properties of the binder\<close>

text \<open>
  C10. Take an exported field of a signed or unsigned integer type (no user-defined
  parser, not \<^verbatim>\<open>time.Duration\<close>) on a 32- or 64-bit platform, with short identifier
  \<open>sh\<close> and long identifier \<open>lg\<close>, one of them present, and a non-empty \<^verbatim>\<open>dft\<close>
  literal \<open>lit\<close>; let \<open>w\<close> be the width of its type: 8, 16, 32 or 64 as the type says,
  and the platform's for \<^verbatim>\<open>int\<close> and \<^verbatim>\<open>uint\<close>.

  For a signed type: when \<open>lit\<close> is a decimal literal with optional sign whose value lies
  in the 64-bit range, default coercion, for all separators, returns that value at 64
  bits, whatever \<open>w\<close> is; \<open>parseField\<close> then registers the field, with its identifiers
  and that value converted to the type, that is, its representative modulo \<open>2 ^ w\<close> in
  the range from \<open>- (2 ^ (w - 1))\<close> to \<open>2 ^ (w - 1) - 1\<close>, unless one of the identifiers is taken
  in the flag set, where the engine panics. For every other literal \<open>parseField\<close> fails
  with the error of \<^verbatim>\<open>ParseInt\<close> and registers nothing; the error is the range error
  when the literal is decimal. For an unsigned type the same holds with unsigned decimal
  literals below \<open>2 ^ 64\<close>, \<^verbatim>\<open>ParseUint\<close> and the value modulo \<open>2 ^ w\<close>.

  So \<^verbatim>\<open>"300"\<close> registers 44 for \<^verbatim>\<open>int8\<close>, \<^verbatim>\<open>"70000"\<close> registers 70000 for
  \<^verbatim>\<open>int32\<close>, \<^verbatim>\<open>"65537"\<close> registers 1 for \<^verbatim>\<open>uint16\<close>, and
  \<^verbatim>\<open>"9223372036854775808"\<close> is refused for \<^verbatim>\<open>int64\<close>.
\<close>

theorem integer_default_converted_after_parsing:
  assumes "IsExported field"
    and "ParseFlag env (Type field) = None" and "Type field \<noteq> typDuration"
    and "underlying (Type field) = TBasic b"
    and "IntSize env = 32 \<or> IntSize env = 64"
    and "length (Get (Tag field) ''short'') \<le> 1"
    and "sh = (if Get (Tag field) ''short'' \<noteq> [] then hd (Get (Tag field) ''short'')
               else CHR 0x00)"
    and "lg = Get (Tag field) ''long''"
    and "sh \<noteq> CHR 0x00 \<or> lg \<noteq> []"
    and "fst (Lookup (Tag field) ''dft'') = lit" and "lit \<noteq> []"
    and "w = bitsOf env b"
  shows
    "(b \<in> signedKinds \<longrightarrow>
        (if isDecimal (signedBody lit) \<and> - (2 ^ 63) \<le> signedValue lit \<and> signedValue lit < 2 ^ 63
         then parseDefault env (Type field) lit sep = Inr (VInt (signedValue lit))
           \<and> (if (sh = CHR 0x00 \<or> sh \<notin> set (map ShortName (Vars (fs r))))
                   \<and> (lg = [] \<or> lg \<notin> set (map LongName (Vars (fs r))))
                then \<exists>v. parseField env r field val
                             = (None, r\<lparr>fs := (fs r)\<lparr>Vars := Vars (fs r) @ [v]\<rparr>\<rparr>)
                       \<and> Ptr v = val \<and> ShortName v = sh \<and> LongName v = lg
                       \<and> Default v = Some (VInt (wrapSigned w (signedValue lit)))
                else \<exists>msg. parseField env r field val = (Some (RuntimePanic msg), r))
         else \<exists>k. parseField env r field val = (Some (NumError ''ParseInt'' lit k), r)
                \<and> (isDecimal (signedBody lit) \<longrightarrow> k = ErrRange))
        \<and> wrapSigned w (signedValue lit) mod 2 ^ w = signedValue lit mod 2 ^ w
        \<and> - (2 ^ (w - 1)) \<le> wrapSigned w (signedValue lit)
        \<and> wrapSigned w (signedValue lit) < 2 ^ (w - 1))
     \<and> (b \<in> unsignedKinds \<longrightarrow>
        (if isDecimal lit \<and> decimalValue lit < 2 ^ 64
         then parseDefault env (Type field) lit sep = Inr (VUint (decimalValue lit))
           \<and> (if (sh = CHR 0x00 \<or> sh \<notin> set (map ShortName (Vars (fs r))))
                   \<and> (lg = [] \<or> lg \<notin> set (map LongName (Vars (fs r))))
                then \<exists>v. parseField env r field val
                             = (None, r\<lparr>fs := (fs r)\<lparr>Vars := Vars (fs r) @ [v]\<rparr>\<rparr>)
                       \<and> Ptr v = val \<and> ShortName v = sh \<and> LongName v = lg
                       \<and> Default v = Some (VUint (decimalValue lit mod 2 ^ w))
                else \<exists>msg. parseField env r field val = (Some (RuntimePanic msg), r))
         else \<exists>k. parseField env r field val = (Some (NumError ''ParseUint'' lit k), r)
                \<and> (isDecimal lit \<longrightarrow> k = ErrRange)))
     \<and> (b \<in> signedKinds \<union> unsignedKinds \<longrightarrow> w \<in> {8, 16, 32, 64})
     \<and> bitsOf env KInt8 = 8 \<and> bitsOf env KUint8 = 8
     \<and> bitsOf env KInt16 = 16 \<and> bitsOf env KUint16 = 16
     \<and> bitsOf env KInt32 = 32 \<and> bitsOf env KUint32 = 32
     \<and> bitsOf env KInt64 = 64 \<and> bitsOf env KUint64 = 64
     \<and> bitsOf env KInt = IntSize env \<and> bitsOf env KUint = IntSize env"
proof -
  let ?seps = "map stringOfByte (TrimSpace (Get (Tag field) ''sep''))"
  let ?fresh = "(sh = CHR 0x00 \<or> sh \<notin> set (map ShortName (Vars (fs r))))
                   \<and> (lg = [] \<or> lg \<notin> set (map LongName (Vars (fs r))))"
  have width: "w \<in> {8, 16, 32, 64}" if "b \<in> signedKinds \<union> unsignedKinds"
    using that assms(5,12) by (auto simp: bitsOf_def signedKinds_def unsignedKinds_def)
  have lit: "fst (Lookup (Tag field) ''dft'') \<noteq> []"
    using assms(10,11) by simp
  have registers: "if ?fresh
      then \<exists>v. parseField env r field val = (None, r\<lparr>fs := (fs r)\<lparr>Vars := Vars (fs r) @ [v]\<rparr>\<rparr>)
             \<and> Ptr v = val \<and> ShortName v = sh \<and> LongName v = lg
             \<and> Default v = Some (Convert env d (Type field))
      else \<exists>msg. parseField env r field val = (Some (RuntimePanic msg), r)"
    if d: "parseDefault env (Type field) lit ?seps = Inr d" for d
  proof -
    from d assms(10) have d': "parseDefault env (Type field) (fst (Lookup (Tag field) ''dft''))
        ?seps = Inr d"
      by simp
    note f = field_default_ok [OF assms(1) assms(6) lit d']
    from f(2) assms(7-9) have bound: "fieldBound env field"
      by (auto split: if_splits)
    from f(4) assms(7) have sh: "ShortName (fieldVar env field val) = sh"
      by simp
    from f(5) assms(8) have lg: "LongName (fieldVar env field val) = lg"
      by simp
    have run: "parseField env r field val =
        (case duplicated (Vars (fs r)) (fieldVar env field val) of
           Some err \<Rightarrow> (Some err, r)
         | None \<Rightarrow> (None, r\<lparr>fs := (fs r)\<lparr>Vars := Vars (fs r) @ [fieldVar env field val]\<rparr>\<rparr>))"
      unfolding parseField_eq using f(1) bound by simp
    show ?thesis
    proof (cases ?fresh)
      case True
      then have "duplicated (Vars (fs r)) (fieldVar env field val) = None"
        unfolding duplicated_def sh lg by auto
      with run f(3) sh lg f(6)
      have "parseField env r field val
            = (None, r\<lparr>fs := (fs r)\<lparr>Vars := Vars (fs r) @ [fieldVar env field val]\<rparr>\<rparr>)
          \<and> Ptr (fieldVar env field val) = val \<and> ShortName (fieldVar env field val) = sh
          \<and> LongName (fieldVar env field val) = lg
          \<and> Default (fieldVar env field val) = Some (Convert env d (Type field))"
        by simp
      then have "\<exists>v. parseField env r field val
            = (None, r\<lparr>fs := (fs r)\<lparr>Vars := Vars (fs r) @ [v]\<rparr>\<rparr>)
          \<and> Ptr v = val \<and> ShortName v = sh \<and> LongName v = lg
          \<and> Default v = Some (Convert env d (Type field))"
        by (rule exI)
      then show ?thesis
        unfolding if_P [OF True] .
    next
      case False
      then have "\<exists>msg. duplicated (Vars (fs r)) (fieldVar env field val) = Some (RuntimePanic msg)"
        unfolding duplicated_def sh lg by auto
      with run have "\<exists>msg. parseField env r field val = (Some (RuntimePanic msg), r)"
        by auto
      then show ?thesis
        unfolding if_not_P [OF False] .
    qed
  qed
  have fails: "parseField env r field val = (Some e, r)"
    if "parseDefault env (Type field) lit ?seps = Inl e" for e
    using field_default_error [OF assms(1) assms(6) lit, of env e r val] that assms(10)
    by simp
  have signed: "(if isDecimal (signedBody lit) \<and> - (2 ^ 63) \<le> signedValue lit
                    \<and> signedValue lit < 2 ^ 63
         then parseDefault env (Type field) lit sep = Inr (VInt (signedValue lit))
           \<and> (if ?fresh
                then \<exists>v. parseField env r field val
                             = (None, r\<lparr>fs := (fs r)\<lparr>Vars := Vars (fs r) @ [v]\<rparr>\<rparr>)
                       \<and> Ptr v = val \<and> ShortName v = sh \<and> LongName v = lg
                       \<and> Default v = Some (VInt (wrapSigned w (signedValue lit)))
                else \<exists>msg. parseField env r field val = (Some (RuntimePanic msg), r))
         else \<exists>k. parseField env r field val = (Some (NumError ''ParseInt'' lit k), r)
                \<and> (isDecimal (signedBody lit) \<longrightarrow> k = ErrRange))
        \<and> wrapSigned w (signedValue lit) mod 2 ^ w = signedValue lit mod 2 ^ w
        \<and> - (2 ^ (w - 1)) \<le> wrapSigned w (signedValue lit)
        \<and> wrapSigned w (signedValue lit) < 2 ^ (w - 1)"
    if sg: "b \<in> signedKinds"
  proof -
    have pd: "parseDefault env (Type field) lit s =
        (case ParseInt lit of Inl e \<Rightarrow> Inl e | Inr n \<Rightarrow> Inr (VInt n))" for s
      using sg by (simp add: parseDefault_TBasic [OF assms(2-4)])
    have conv: "Convert env (VInt n) (Type field) = VInt (wrapSigned w n)" for n
      using sg assms(4,12) by (simp add: Convert_def)
    from width sg have "0 < w"
      by auto
    from wrapSigned_range [OF this, of "signedValue lit"]
    have range: "- (2 ^ (w - 1)) \<le> wrapSigned w (signedValue lit)"
      "wrapSigned w (signedValue lit) < 2 ^ (w - 1)"
      by simp_all
    have modw: "wrapSigned w (signedValue lit) mod 2 ^ w = signedValue lit mod 2 ^ w"
      by (rule wrapSigned_mod)
    show ?thesis
    proof (cases "isDecimal (signedBody lit) \<and> - (2 ^ 63) \<le> signedValue lit
                    \<and> signedValue lit < 2 ^ 63")
      case True
      then have "ParseInt lit = Inr (signedValue lit)"
        by (simp add: ParseInt_Inr_iff)
      then have p: "parseDefault env (Type field) lit s = Inr (VInt (signedValue lit))" for s
        by (simp add: pd)
      from registers [OF p] have "if ?fresh
          then \<exists>v. parseField env r field val
                       = (None, r\<lparr>fs := (fs r)\<lparr>Vars := Vars (fs r) @ [v]\<rparr>\<rparr>)
                 \<and> Ptr v = val \<and> ShortName v = sh \<and> LongName v = lg
                 \<and> Default v = Some (VInt (wrapSigned w (signedValue lit)))
          else \<exists>msg. parseField env r field val = (Some (RuntimePanic msg), r)"
        unfolding conv .
      with p [of sep] range modw show ?thesis
        unfolding if_P [OF True] by (intro conjI)
    next
      case False
      then have "\<And>n. ParseInt lit \<noteq> Inr n"
        by (auto simp: ParseInt_Inr_iff)
      then obtain e where e: "ParseInt lit = Inl e"
        by (cases "ParseInt lit") auto
      from ParseInt_Inl [OF e] obtain k where k: "e = NumError ''ParseInt'' lit k"
        "isDecimal (signedBody lit) \<longrightarrow> k = ErrRange"
        by blast
      from e k(1) have "parseDefault env (Type field) lit ?seps = Inl (NumError ''ParseInt'' lit k)"
        by (simp add: pd)
      from fails [OF this] k(2)
      have "\<exists>k. parseField env r field val = (Some (NumError ''ParseInt'' lit k), r)
                \<and> (isDecimal (signedBody lit) \<longrightarrow> k = ErrRange)"
        by (intro exI [of _ k] conjI)
      with range modw show ?thesis
        unfolding if_not_P [OF False] by (intro conjI)
    qed
  qed
  have unsigned: "if isDecimal lit \<and> decimalValue lit < 2 ^ 64
         then parseDefault env (Type field) lit sep = Inr (VUint (decimalValue lit))
           \<and> (if ?fresh
                then \<exists>v. parseField env r field val
                             = (None, r\<lparr>fs := (fs r)\<lparr>Vars := Vars (fs r) @ [v]\<rparr>\<rparr>)
                       \<and> Ptr v = val \<and> ShortName v = sh \<and> LongName v = lg
                       \<and> Default v = Some (VUint (decimalValue lit mod 2 ^ w))
                else \<exists>msg. parseField env r field val = (Some (RuntimePanic msg), r))
         else \<exists>k. parseField env r field val = (Some (NumError ''ParseUint'' lit k), r)
                \<and> (isDecimal lit \<longrightarrow> k = ErrRange)"
    if us: "b \<in> unsignedKinds"
  proof -
    from us have ns: "b \<notin> signedKinds"
      by (auto simp: signedKinds_def unsignedKinds_def)
    have pd: "parseDefault env (Type field) lit s =
        (case ParseUint lit of Inl e \<Rightarrow> Inl e | Inr n \<Rightarrow> Inr (VUint n))" for s
      using us ns by (simp add: parseDefault_TBasic [OF assms(2-4)])
    have conv: "Convert env (VUint n) (Type field) = VUint (n mod 2 ^ w)" for n
      using us assms(4,12) by (simp add: Convert_def wrapUnsigned_def)
    show ?thesis
    proof (cases "isDecimal lit \<and> decimalValue lit < 2 ^ 64")
      case True
      then have "ParseUint lit = Inr (decimalValue lit)"
        by (simp add: ParseUint_Inr_iff)
      then have p: "parseDefault env (Type field) lit s = Inr (VUint (decimalValue lit))" for s
        by (simp add: pd)
      from registers [OF p] have "if ?fresh
          then \<exists>v. parseField env r field val
                       = (None, r\<lparr>fs := (fs r)\<lparr>Vars := Vars (fs r) @ [v]\<rparr>\<rparr>)
                 \<and> Ptr v = val \<and> ShortName v = sh \<and> LongName v = lg
                 \<and> Default v = Some (VUint (decimalValue lit mod 2 ^ w))
          else \<exists>msg. parseField env r field val = (Some (RuntimePanic msg), r)"
        unfolding conv .
      with p [of sep] show ?thesis
        unfolding if_P [OF True] by (intro conjI)
    next
      case False
      then have "\<And>n. ParseUint lit \<noteq> Inr n"
        by (auto simp: ParseUint_Inr_iff)
      then obtain e where e: "ParseUint lit = Inl e"
        by (cases "ParseUint lit") auto
      from ParseUint_Inl [OF e] obtain k where k: "e = NumError ''ParseUint'' lit k"
        "isDecimal lit \<longrightarrow> k = ErrRange"
        by blast
      from e k(1) have "parseDefault env (Type field) lit ?seps = Inl (NumError ''ParseUint'' lit k)"
        by (simp add: pd)
      from fails [OF this] k(2)
      have "\<exists>k. parseField env r field val = (Some (NumError ''ParseUint'' lit k), r)
                \<and> (isDecimal lit \<longrightarrow> k = ErrRange)"
        by (intro exI [of _ k] conjI)
      then show ?thesis
        unfolding if_not_P [OF False] .
    qed
  qed
  show ?thesis
  proof (intro conjI impI)
    assume "b \<in> signedKinds"
    from signed [OF this] show "if isDecimal (signedBody lit) \<and> - (2 ^ 63) \<le> signedValue lit
                    \<and> signedValue lit < 2 ^ 63
         then parseDefault env (Type field) lit sep = Inr (VInt (signedValue lit))
           \<and> (if ?fresh
                then \<exists>v. parseField env r field val
                             = (None, r\<lparr>fs := (fs r)\<lparr>Vars := Vars (fs r) @ [v]\<rparr>\<rparr>)
                       \<and> Ptr v = val \<and> ShortName v = sh \<and> LongName v = lg
                       \<and> Default v = Some (VInt (wrapSigned w (signedValue lit)))
                else \<exists>msg. parseField env r field val = (Some (RuntimePanic msg), r))
         else \<exists>k. parseField env r field val = (Some (NumError ''ParseInt'' lit k), r)
                \<and> (isDecimal (signedBody lit) \<longrightarrow> k = ErrRange)"
      and "wrapSigned w (signedValue lit) mod 2 ^ w = signedValue lit mod 2 ^ w"
      and "- (2 ^ (w - 1)) \<le> wrapSigned w (signedValue lit)"
      and "wrapSigned w (signedValue lit) < 2 ^ (w - 1)"
      by simp_all
  next
    assume "b \<in> unsignedKinds"
    then show "if isDecimal lit \<and> decimalValue lit < 2 ^ 64
         then parseDefault env (Type field) lit sep = Inr (VUint (decimalValue lit))
           \<and> (if ?fresh
                then \<exists>v. parseField env r field val
                             = (None, r\<lparr>fs := (fs r)\<lparr>Vars := Vars (fs r) @ [v]\<rparr>\<rparr>)
                       \<and> Ptr v = val \<and> ShortName v = sh \<and> LongName v = lg
                       \<and> Default v = Some (VUint (decimalValue lit mod 2 ^ w))
                else \<exists>msg. parseField env r field val = (Some (RuntimePanic msg), r))
         else \<exists>k. parseField env r field val = (Some (NumError ''ParseUint'' lit k), r)
                \<and> (isDecimal lit \<longrightarrow> k = ErrRange)"
      by (rule unsigned)
  next
    assume "b \<in> signedKinds \<union> unsignedKinds"
    then show "w \<in> {8, 16, 32, 64}"
      by (rule width)
  next
    show "bitsOf env KInt8 = 8" "bitsOf env KUint8 = 8" "bitsOf env KInt16 = 16"
      "bitsOf env KUint16 = 16" "bitsOf env KInt32 = 32" "bitsOf env KUint32 = 32"
      "bitsOf env KInt64 = 64" "bitsOf env KUint64 = 64" "bitsOf env KInt = IntSize env"
      "bitsOf env KUint = IntSize env"
      by (simp_all add: bitsOf_def)
  qed
qed

theorem integer_default_converted_after_parsing_witness:
  "(\<exists>v. parseField env0 r0 fieldX (0, 0) =
           (None, r0\<lparr>fs := (fs r0)\<lparr>Vars := Vars (fs r0) @ [v]\<rparr>\<rparr>)
        \<and> Default v = Some (VInt 44))
   \<and> (\<exists>v. parseField env0 r0 fieldW (0, 1) =
           (None, r0\<lparr>fs := (fs r0)\<lparr>Vars := Vars (fs r0) @ [v]\<rparr>\<rparr>)
        \<and> Default v = Some (VInt 70000))
   \<and> (\<exists>v. parseField env0 r0 fieldY (0, 2) =
           (None, r0\<lparr>fs := (fs r0)\<lparr>Vars := Vars (fs r0) @ [v]\<rparr>\<rparr>)
        \<and> Default v = Some (VUint 1))
   \<and> parseField env0 r0 fieldV (0, 3) =
        (Some (NumError ''ParseInt'' ''9223372036854775808'' ErrRange), r0)"
proof -
  note lits = isDecimal_def isDigit_def signedBody_def signedValue_def decimalValue_def
  have fresh: "(c = CHR 0x00 \<or> c \<notin> set (map ShortName (Vars (fs r0))))
      \<and> (l = [] \<or> l \<notin> set (map LongName (Vars (fs r0))))" for c l
    by (simp add: r0_def)
  have x: "IsExported fieldX" "ParseFlag env0 (Type fieldX) = None" "Type fieldX \<noteq> typDuration"
    "underlying (Type fieldX) = TBasic KInt8" "IntSize env0 = 32 \<or> IntSize env0 = 64"
    "length (Get (Tag fieldX) ''short'') \<le> 1"
    "CHR ''x'' = (if Get (Tag fieldX) ''short'' \<noteq> [] then hd (Get (Tag fieldX) ''short'')
                  else CHR 0x00)"
    "[] = Get (Tag fieldX) ''long''" "CHR ''x'' \<noteq> CHR 0x00 \<or> [] \<noteq> ([] :: string)"
    "fst (Lookup (Tag fieldX) ''dft'') = ''300''" "''300'' \<noteq> []" "8 = bitsOf env0 KInt8"
    by (simp_all add: fieldX_def env0_def typDuration_def Get_def bitsOf_def)
  have cx: "isDecimal (signedBody ''300'') \<and> - (2 ^ 63) \<le> signedValue ''300''
      \<and> signedValue ''300'' < 2 ^ 63"
    and vx: "wrapSigned 8 (signedValue ''300'') = 44"
    by (simp_all add: lits wrapSigned_def)
  have "KInt8 \<in> signedKinds"
    by (simp add: signedKinds_def)
  from integer_default_converted_after_parsing
      [OF x, where r = r0 and val = "(0, 0)", THEN conjunct1, rule_format, OF this, THEN conjunct1]
  have "\<exists>v. parseField env0 r0 fieldX (0, 0)
            = (None, r0\<lparr>fs := (fs r0)\<lparr>Vars := Vars (fs r0) @ [v]\<rparr>\<rparr>)
        \<and> Ptr v = (0, 0) \<and> ShortName v = CHR ''x'' \<and> LongName v = []
        \<and> Default v = Some (VInt 44)"
    unfolding if_P [OF cx] if_P [OF fresh] vx by (rule conjunct2)
  then have 1: "\<exists>v. parseField env0 r0 fieldX (0, 0) =
           (None, r0\<lparr>fs := (fs r0)\<lparr>Vars := Vars (fs r0) @ [v]\<rparr>\<rparr>)
        \<and> Default v = Some (VInt 44)"
    by blast
  have w: "IsExported fieldW" "ParseFlag env0 (Type fieldW) = None" "Type fieldW \<noteq> typDuration"
    "underlying (Type fieldW) = TBasic KInt32" "IntSize env0 = 32 \<or> IntSize env0 = 64"
    "length (Get (Tag fieldW) ''short'') \<le> 1"
    "CHR 0x00 = (if Get (Tag fieldW) ''short'' \<noteq> [] then hd (Get (Tag fieldW) ''short'')
                 else CHR 0x00)"
    "''w'' = Get (Tag fieldW) ''long''" "CHR 0x00 \<noteq> CHR 0x00 \<or> ''w'' \<noteq> []"
    "fst (Lookup (Tag fieldW) ''dft'') = ''70000''" "''70000'' \<noteq> []" "32 = bitsOf env0 KInt32"
    by (simp_all add: fieldW_def env0_def typDuration_def Get_def bitsOf_def)
  have cw: "isDecimal (signedBody ''70000'') \<and> - (2 ^ 63) \<le> signedValue ''70000''
      \<and> signedValue ''70000'' < 2 ^ 63"
    and vw: "wrapSigned 32 (signedValue ''70000'') = 70000"
    by (simp_all add: lits wrapSigned_def)
  have "KInt32 \<in> signedKinds"
    by (simp add: signedKinds_def)
  from integer_default_converted_after_parsing
      [OF w, where r = r0 and val = "(0, 1)", THEN conjunct1, rule_format, OF this, THEN conjunct1]
  have "\<exists>v. parseField env0 r0 fieldW (0, 1)
            = (None, r0\<lparr>fs := (fs r0)\<lparr>Vars := Vars (fs r0) @ [v]\<rparr>\<rparr>)
        \<and> Ptr v = (0, 1) \<and> ShortName v = CHR 0x00 \<and> LongName v = ''w''
        \<and> Default v = Some (VInt 70000)"
    unfolding if_P [OF cw] if_P [OF fresh] vw by (rule conjunct2)
  then have 2: "\<exists>v. parseField env0 r0 fieldW (0, 1) =
           (None, r0\<lparr>fs := (fs r0)\<lparr>Vars := Vars (fs r0) @ [v]\<rparr>\<rparr>)
        \<and> Default v = Some (VInt 70000)"
    by blast
  have y: "IsExported fieldY" "ParseFlag env0 (Type fieldY) = None" "Type fieldY \<noteq> typDuration"
    "underlying (Type fieldY) = TBasic KUint16" "IntSize env0 = 32 \<or> IntSize env0 = 64"
    "length (Get (Tag fieldY) ''short'') \<le> 1"
    "CHR 0x00 = (if Get (Tag fieldY) ''short'' \<noteq> [] then hd (Get (Tag fieldY) ''short'')
                 else CHR 0x00)"
    "''y'' = Get (Tag fieldY) ''long''" "CHR 0x00 \<noteq> CHR 0x00 \<or> ''y'' \<noteq> []"
    "fst (Lookup (Tag fieldY) ''dft'') = ''65537''" "''65537'' \<noteq> []" "16 = bitsOf env0 KUint16"
    by (simp_all add: fieldY_def env0_def typDuration_def Get_def bitsOf_def)
  have cy: "isDecimal ''65537'' \<and> decimalValue ''65537'' < 2 ^ 64"
    and vy: "decimalValue ''65537'' mod 2 ^ 16 = 1"
    by (simp_all add: lits)
  have "KUint16 \<in> unsignedKinds"
    by (simp add: unsignedKinds_def)
  from integer_default_converted_after_parsing
      [OF y, where r = r0 and val = "(0, 2)", THEN conjunct2, THEN conjunct1, rule_format, OF this]
  have "\<exists>v. parseField env0 r0 fieldY (0, 2)
            = (None, r0\<lparr>fs := (fs r0)\<lparr>Vars := Vars (fs r0) @ [v]\<rparr>\<rparr>)
        \<and> Ptr v = (0, 2) \<and> ShortName v = CHR 0x00 \<and> LongName v = ''y''
        \<and> Default v = Some (VUint 1)"
    unfolding if_P [OF cy] if_P [OF fresh] vy by (rule conjunct2)
  then have 3: "\<exists>v. parseField env0 r0 fieldY (0, 2) =
           (None, r0\<lparr>fs := (fs r0)\<lparr>Vars := Vars (fs r0) @ [v]\<rparr>\<rparr>)
        \<and> Default v = Some (VUint 1)"
    by blast
  have v: "IsExported fieldV" "ParseFlag env0 (Type fieldV) = None" "Type fieldV \<noteq> typDuration"
    "underlying (Type fieldV) = TBasic KInt64" "IntSize env0 = 32 \<or> IntSize env0 = 64"
    "length (Get (Tag fieldV) ''short'') \<le> 1"
    "CHR ''v'' = (if Get (Tag fieldV) ''short'' \<noteq> [] then hd (Get (Tag fieldV) ''short'')
                  else CHR 0x00)"
    "[] = Get (Tag fieldV) ''long''" "CHR ''v'' \<noteq> CHR 0x00 \<or> [] \<noteq> ([] :: string)"
    "fst (Lookup (Tag fieldV) ''dft'') = ''9223372036854775808''"
    "''9223372036854775808'' \<noteq> []" "64 = bitsOf env0 KInt64"
    by (simp_all add: fieldV_def env0_def typDuration_def Get_def bitsOf_def)
  have dv: "isDecimal (signedBody ''9223372036854775808'')"
    and cv: "\<not> (isDecimal (signedBody ''9223372036854775808'')
      \<and> - (2 ^ 63) \<le> signedValue ''9223372036854775808''
      \<and> signedValue ''9223372036854775808'' < 2 ^ 63)"
    by (simp_all add: lits)
  have "KInt64 \<in> signedKinds"
    by (simp add: signedKinds_def)
  from integer_default_converted_after_parsing
      [OF v, where r = r0 and val = "(0, 3)", THEN conjunct1, rule_format, OF this, THEN conjunct1]
  have "\<exists>k. parseField env0 r0 fieldV (0, 3)
          = (Some (NumError ''ParseInt'' ''9223372036854775808'' k), r0)
        \<and> (isDecimal (signedBody ''9223372036854775808'') \<longrightarrow> k = ErrRange)"
    unfolding if_not_P [OF cv] .
  with dv have 4: "parseField env0 r0 fieldV (0, 3) =
        (Some (NumError ''ParseInt'' ''9223372036854775808'' ErrRange), r0)"
    by blast
  from 1 2 3 4 show ?thesis
    by (intro conjI)
qed

text \<open>The definitions to unfold when the binder is run on a concrete record.\<close>

lemmas binder_simps =
  parseOptions_def parseField_def parseTag_def Fields_def AnyVar_def duplicated_def Get_def
  r0_def env0_def

lemma parseOptions_A_B:
  "parseOptions env0 r0 (TStruct [fieldA, fieldB]) False = (Inl (InvalidShortTag ''bb''), boundA)"
  by (simp add: binder_simps eval_simps fieldA_def fieldB_def boundA_def)

text \<open>
  C2, as stated, fails: binding \<^verbatim>\<open>struct { A int `short:"a"`; B int `short:"bb"` }\<close>
  returns the invalid-short-tag error of \<^verbatim>\<open>B\<close>, and the field \<^verbatim>\<open>A\<close>, which
  precedes it, is registered with the flag set afterwards.
\<close>

theorem binder_failure_rolls_back_counterexample:
  "fst (parseOptions env0 r0 (TStruct [fieldA, fieldB]) False) = Inl (InvalidShortTag ''bb'')
   \<and> Vars (fs r0) = []
   \<and> map Ptr (Vars (fs (snd (parseOptions env0 r0 (TStruct [fieldA, fieldB]) False)))) = [(0, 0)]
   \<and> map ShortName (Vars (fs (snd (parseOptions env0 r0 (TStruct [fieldA, fieldB]) False))))
       = [CHR ''a'']"
  by (simp add: parseOptions_A_B) (simp add: boundA_def r0_def)

text \<open>
  C2, amended. The binder call on a record type fails with \<open>err\<close> and leaves the router
  \<open>r'\<close> exactly when there is a field, at index \<open>i\<close>, that fails with \<open>err\<close> on the
  registrations made so far while no field before it does, and \<open>r'\<close> is the router with
  one more instance and with the registrations of the fields before \<open>i\<close> that carry an
  identifier appended, in declaration order, to those that were there: nothing is rolled
  back, and no field at or after \<open>i\<close> is registered. A field fails with the error of its
  tag (an invalid short tag or a failed default coercion, for an exported field), or, when
  it is to be registered, with the panic of the engine on an identifier that is taken.
  Hence the call fails whenever tag parsing or default coercion fails for some exported
  field, and it returns the error of that field when no field before it fails. The
  fields that carry an identifier are the exported fields whose tag parses and whose
  \<^verbatim>\<open>long\<close> annotation is not empty or whose \<^verbatim>\<open>short\<close> annotation is a byte other
  than zero; each is registered under these identifiers with the address of the field
  in the new instance.
\<close>

theorem binder_failure_keeps_earlier_fields:
  "(parseOptions env r arg isPtr = (Inl err, r') \<longleftrightarrow>
      (\<exists>i<length (Fields arg).
          fieldFails env (Vars (fs r) @ registrations env (Fields arg) (heap r) i)
            (Fields arg ! i) (heap r, i) = Some err
        \<and> (\<forall>j<i. fieldFails env (Vars (fs r) @ registrations env (Fields arg) (heap r) j)
                    (Fields arg ! j) (heap r, j) = None)
        \<and> r' = r\<lparr>fs := (fs r)\<lparr>Vars := Vars (fs r) @ registrations env (Fields arg) (heap r) i\<rparr>,
                  heap := Suc (heap r)\<rparr>))
   \<and> ((\<exists>i<length (Fields arg). IsExported (Fields arg ! i) \<and> isl (parseTag env (Fields arg ! i)))
        \<longrightarrow> (\<exists>e q. parseOptions env r arg isPtr = (Inl e, q)))
   \<and> (\<forall>i<length (Fields arg). \<forall>e.
         IsExported (Fields arg ! i) \<and> parseTag env (Fields arg ! i) = Inl e
         \<and> (\<forall>j<i. fieldFails env (Vars (fs r) @ registrations env (Fields arg) (heap r) j)
                     (Fields arg ! j) (heap r, j) = None)
         \<longrightarrow> parseOptions env r arg isPtr =
               (Inl e, r\<lparr>fs := (fs r)\<lparr>Vars := Vars (fs r)
                                    @ registrations env (Fields arg) (heap r) i\<rparr>,
                         heap := Suc (heap r)\<rparr>))
   \<and> (\<forall>i<length (Fields arg). length (Get (Tag (Fields arg ! i)) ''short'') \<le> 1 \<longrightarrow>
         (fieldBound env (Fields arg ! i) \<longleftrightarrow>
            IsExported (Fields arg ! i) \<and> \<not> isl (parseTag env (Fields arg ! i))
            \<and> (Get (Tag (Fields arg ! i)) ''long'' \<noteq> []
               \<or> (Get (Tag (Fields arg ! i)) ''short'' \<noteq> []
                  \<and> hd (Get (Tag (Fields arg ! i)) ''short'') \<noteq> CHR 0x00)))
         \<and> (fieldBound env (Fields arg ! i) \<longrightarrow>
              Ptr (fieldVar env (Fields arg ! i) (heap r, i)) = (heap r, i)
              \<and> ShortName (fieldVar env (Fields arg ! i) (heap r, i)) =
                  (if Get (Tag (Fields arg ! i)) ''short'' \<noteq> []
                   then hd (Get (Tag (Fields arg ! i)) ''short'') else CHR 0x00)
              \<and> LongName (fieldVar env (Fields arg ! i) (heap r, i))
                  = Get (Tag (Fields arg ! i)) ''long''))"
proof -
  let ?flds = "Fields arg"
  let ?r1 = "r\<lparr>heap := Suc (heap r)\<rparr>"
  let ?regs = "\<lambda>i. Vars (fs r) @ registrations env ?flds (heap r) i"
  let ?R = "\<lambda>i. r\<lparr>fs := (fs r)\<lparr>Vars := ?regs i\<rparr>, heap := Suc (heap r)\<rparr>"
  let ?none = "\<lambda>i. \<forall>j<i. fieldFails env (?regs j) (?flds ! j) (heap r, j) = None"
  have run: "parseOptions env r arg isPtr = (Inl e, q)
      \<longleftrightarrow> parseOptions_loop env ?r1 ?flds (heap r) 0 = (Some e, q)" for e q
    by (auto simp: parseOptions_def Let_def split: prod.splits option.splits)
  have pre: "parseOptions_loop env ?r1 (take i ?flds) (heap r) 0 = (None, q)
      \<longleftrightarrow> ?none i \<and> q = ?R i" if i: "i \<le> length ?flds" for i q
  proof -
    from i have len: "length (take i ?flds) = i"
      by simp
    have regs: "regsFrom env (take i ?flds) (heap r) 0 j = registrations env ?flds (heap r) j"
      if "j \<le> i" for j
      using regsFrom_take [OF that i, of env "heap r" 0] by (simp add: regsFrom_0)
    have "?none i \<longleftrightarrow> (\<forall>j<i. fieldFails env
        (Vars (fs ?r1) @ regsFrom env (take i ?flds) (heap r) 0 j) (take i ?flds ! j)
        (heap r, 0 + j) = None)"
    proof (intro iffI allI impI)
      fix j assume "?none i" "j < i"
      then show "fieldFails env (Vars (fs ?r1) @ regsFrom env (take i ?flds) (heap r) 0 j)
          (take i ?flds ! j) (heap r, 0 + j) = None"
        by (simp add: regs)
    next
      fix j assume "\<forall>j<i. fieldFails env
          (Vars (fs ?r1) @ regsFrom env (take i ?flds) (heap r) 0 j) (take i ?flds ! j)
          (heap r, 0 + j) = None" "j < i"
      then have "fieldFails env (Vars (fs ?r1) @ regsFrom env (take i ?flds) (heap r) 0 j)
          (take i ?flds ! j) (heap r, 0 + j) = None"
        by blast
      with \<open>j < i\<close> show "fieldFails env (?regs j) (?flds ! j) (heap r, j) = None"
        by (simp add: regs)
    qed
    moreover have "?r1\<lparr>fs := (fs ?r1)\<lparr>Vars := Vars (fs ?r1)
          @ regsFrom env (take i ?flds) (heap r) 0 (length (take i ?flds))\<rparr>\<rparr> = ?R i"
      unfolding len by (simp add: regs)
    ultimately show ?thesis
      unfolding parseOptions_loop_None_iff len by simp
  qed
  have main: "parseOptions env r arg isPtr = (Inl e, q) \<longleftrightarrow>
      (\<exists>i<length ?flds. fieldFails env (?regs i) (?flds ! i) (heap r, i) = Some e
          \<and> ?none i \<and> q = ?R i)" for e q
  proof
    assume "parseOptions env r arg isPtr = (Inl e, q)"
    then have "parseOptions_loop env ?r1 ?flds (heap r) 0 = (Some e, q)"
      by (simp add: run)
    from parseOptions_loop_error [OF this] obtain i where i: "i < length ?flds"
      "parseOptions_loop env ?r1 (take i ?flds) (heap r) 0 = (None, q)"
      "parseField env q (?flds ! i) (heap r, 0 + i) = (Some e, q)"
      by blast
    from i(1,2) have before: "?none i" and q: "q = ?R i"
      by (simp_all add: pre)
    from q have "Vars (fs q) = ?regs i"
      by simp
    with i(3) fst_parseField [of env q "?flds ! i" "(heap r, i)"]
    have "fieldFails env (?regs i) (?flds ! i) (heap r, i) = Some e"
      by simp
    with i(1) before q show "\<exists>i<length ?flds.
        fieldFails env (?regs i) (?flds ! i) (heap r, i) = Some e \<and> ?none i \<and> q = ?R i"
      by blast
  next
    assume "\<exists>i<length ?flds.
        fieldFails env (?regs i) (?flds ! i) (heap r, i) = Some e \<and> ?none i \<and> q = ?R i"
    then obtain i where i: "i < length ?flds"
      "fieldFails env (?regs i) (?flds ! i) (heap r, i) = Some e" "?none i" "q = ?R i"
      by blast
    from i(1,3,4) have "parseOptions_loop env ?r1 (take i ?flds) (heap r) 0 = (None, q)"
      by (simp add: pre)
    moreover from i(4) have "Vars (fs q) = ?regs i"
      by simp
    with i(2) have "parseField env q (?flds ! i) (heap r, 0 + i) = (Some e, q)"
      by (simp add: parseField_fails)
    ultimately have "parseOptions_loop env ?r1 ?flds (heap r) 0 = (Some e, q)"
      using i(1) by (rule parseOptions_loop_fails [rotated])
    then show "parseOptions env r arg isPtr = (Inl e, q)"
      by (simp add: run)
  qed
  have forced: "\<exists>e q. parseOptions env r arg isPtr = (Inl e, q)"
    if "\<exists>i<length ?flds. IsExported (?flds ! i) \<and> isl (parseTag env (?flds ! i))"
  proof -
    from that obtain i e where i: "i < length ?flds" "IsExported (?flds ! i)"
      "parseTag env (?flds ! i) = Inl e"
      by (auto simp: isl_def)
    then have fails: "fieldFails env vars (?flds ! i) val = Some e" for vars val
      by (simp add: fieldFails_def fieldErr_def)
    obtain x q where loop: "parseOptions_loop env ?r1 ?flds (heap r) 0 = (x, q)"
      by (cases "parseOptions_loop env ?r1 ?flds (heap r) 0")
    show ?thesis
    proof (cases x)
      case None
      with loop have "parseOptions_loop env ?r1 ?flds (heap r) 0 = (None, q)"
        by simp
      with i(1) have "fieldFails env (Vars (fs ?r1) @ regsFrom env ?flds (heap r) 0 i)
          (?flds ! i) (heap r, 0 + i) = None"
        unfolding parseOptions_loop_None_iff by blast
      with fails show ?thesis by simp
    next
      case (Some e')
      with loop show ?thesis
        by (auto simp: run)
    qed
  qed
  have first: "parseOptions env r arg isPtr = (Inl e, ?R i)"
    if "i < length ?flds" "IsExported (?flds ! i) \<and> parseTag env (?flds ! i) = Inl e \<and> ?none i"
    for i e
  proof -
    from that(2) have "fieldFails env (?regs i) (?flds ! i) (heap r, i) = Some e"
      by (simp add: fieldFails_def fieldErr_def)
    with that show ?thesis
      unfolding main by blast
  qed
  show ?thesis
  proof (intro conjI allI impI)
    show "parseOptions env r arg isPtr = (Inl err, r') \<longleftrightarrow>
      (\<exists>i<length ?flds. fieldFails env (?regs i) (?flds ! i) (heap r, i) = Some err
          \<and> ?none i \<and> r' = ?R i)"
      by (rule main)
  next
    assume "\<exists>i<length ?flds. IsExported (?flds ! i) \<and> isl (parseTag env (?flds ! i))"
    then show "\<exists>e q. parseOptions env r arg isPtr = (Inl e, q)"
      by (rule forced)
  next
    fix i e
    assume "i < length ?flds"
      "IsExported (?flds ! i) \<and> parseTag env (?flds ! i) = Inl e \<and> ?none i"
    then show "parseOptions env r arg isPtr = (Inl e, ?R i)"
      by (rule first)
  next
    fix i
    assume "length (Get (Tag (?flds ! i)) ''short'') \<le> 1"
    then show "fieldBound env (?flds ! i) \<longleftrightarrow>
            IsExported (?flds ! i) \<and> \<not> isl (parseTag env (?flds ! i))
            \<and> (Get (Tag (?flds ! i)) ''long'' \<noteq> []
               \<or> (Get (Tag (?flds ! i)) ''short'' \<noteq> []
                  \<and> hd (Get (Tag (?flds ! i)) ''short'') \<noteq> CHR 0x00))"
      by (rule fieldBound_annotations)
  next
    fix i
    assume "length (Get (Tag (?flds ! i)) ''short'') \<le> 1" "fieldBound env (?flds ! i)"
    note ids = fieldVar_annotations [OF this, of "(heap r, i)"]
    from ids(1) show "Ptr (fieldVar env (?flds ! i) (heap r, i)) = (heap r, i)" .
    from ids(2) show "ShortName (fieldVar env (?flds ! i) (heap r, i)) =
                  (if Get (Tag (?flds ! i)) ''short'' \<noteq> []
                   then hd (Get (Tag (?flds ! i)) ''short'') else CHR 0x00)" .
    from ids(3) show "LongName (fieldVar env (?flds ! i) (heap r, i))
                  = Get (Tag (?flds ! i)) ''long''" .
  qed
qed

theorem binder_failure_keeps_earlier_fields_witness:
  "parseOptions env0 r0 (TStruct [fieldA, fieldB]) False = (Inl (InvalidShortTag ''bb''), boundA)
   \<and> parseOptions env0 r0 (TStruct [fieldA, fieldA2]) False
       = (Inl (RuntimePanic ''flags: duplicated short option: -a''), boundA)"
proof (rule conjI)
  note defs = fieldFails_def fieldErr_def fieldBound_def fieldVar_def registrations_def
    optsOf_def boundA_def fieldA_def fieldB_def fieldA2_def
  let ?S = "TStruct [fieldA, fieldB]"
  have len: "1 < length (Fields ?S)"
    by (simp add: Fields_def)
  have tag: "IsExported (Fields ?S ! 1) \<and> parseTag env0 (Fields ?S ! 1) = Inl (InvalidShortTag ''bb'')
      \<and> (\<forall>j<1. fieldFails env0 (Vars (fs r0) @ registrations env0 (Fields ?S) (heap r0) j)
                  (Fields ?S ! j) (heap r0, j) = None)"
    by (simp add: binder_simps eval_simps defs)
  have left: "r0\<lparr>fs := (fs r0)\<lparr>Vars := Vars (fs r0) @ registrations env0 (Fields ?S) (heap r0) 1\<rparr>,
                 heap := Suc (heap r0)\<rparr> = boundA"
    by (simp add: binder_simps eval_simps defs)
  from binder_failure_keeps_earlier_fields
      [where env = env0 and r = r0 and arg = ?S and isPtr = False,
       THEN conjunct2, THEN conjunct2, THEN conjunct1, rule_format, OF len tag]
  show "parseOptions env0 r0 ?S False = (Inl (InvalidShortTag ''bb''), boundA)"
    unfolding left .
next
  note defs = fieldFails_def fieldErr_def fieldBound_def fieldVar_def registrations_def
    optsOf_def boundA_def fieldA_def fieldB_def fieldA2_def
  let ?S = "TStruct [fieldA, fieldA2]"
  have "1 < length (Fields ?S)
      \<and> fieldFails env0 (Vars (fs r0) @ registrations env0 (Fields ?S) (heap r0) 1)
          (Fields ?S ! 1) (heap r0, 1) = Some (RuntimePanic ''flags: duplicated short option: -a'')
      \<and> (\<forall>j<1. fieldFails env0 (Vars (fs r0) @ registrations env0 (Fields ?S) (heap r0) j)
                  (Fields ?S ! j) (heap r0, j) = None)
      \<and> boundA = r0\<lparr>fs := (fs r0)\<lparr>Vars := Vars (fs r0)
                                  @ registrations env0 (Fields ?S) (heap r0) 1\<rparr>,
                       heap := Suc (heap r0)\<rparr>"
    by (simp add: binder_simps eval_simps defs)
  then have "\<exists>i<length (Fields ?S).
        fieldFails env0 (Vars (fs r0) @ registrations env0 (Fields ?S) (heap r0) i)
          (Fields ?S ! i) (heap r0, i) = Some (RuntimePanic ''flags: duplicated short option: -a'')
      \<and> (\<forall>j<i. fieldFails env0 (Vars (fs r0) @ registrations env0 (Fields ?S) (heap r0) j)
                  (Fields ?S ! j) (heap r0, j) = None)
      \<and> boundA = r0\<lparr>fs := (fs r0)\<lparr>Vars := Vars (fs r0)
                                  @ registrations env0 (Fields ?S) (heap r0) i\<rparr>,
                       heap := Suc (heap r0)\<rparr>"
    by (intro exI [of _ 1])
  with binder_failure_keeps_earlier_fields
      [where env = env0 and r = r0 and arg = ?S and isPtr = False
         and err = "RuntimePanic ''flags: duplicated short option: -a''" and r' = boundA,
       THEN conjunct1]
  show "parseOptions env0 r0 ?S False
      = (Inl (RuntimePanic ''flags: duplicated short option: -a''), boundA)"
    by (rule iffD2)
qed

text \<open>
  C4, as stated, fails: the exported field \<^verbatim>\<open>D int `dft:"x"`\<close> carries neither a short
  nor a long identifier, and the binder call on \<^verbatim>\<open>struct { D int `dft:"x"` }\<close> fails
  with the syntax error of its default literal.
\<close>

theorem field_without_identifier_counterexample:
  "IsExported fieldD \<and> Get (Tag fieldD) ''short'' = [] \<and> Get (Tag fieldD) ''long'' = []
   \<and> parseOptions env0 r0 (TStruct [fieldD]) False =
       (Inl (NumError ''ParseInt'' ''x'' ErrSyntax), r0\<lparr>heap := 1\<rparr>)"
  by (simp add: binder_simps eval_simps fieldD_def)

text \<open>
  C4, amended. \<open>parseField\<close> returns at once, without error and without registration,
  for an unexported field, whatever its annotations are. For an exported field whose
  \<^verbatim>\<open>short\<close> and \<^verbatim>\<open>long\<close> annotations are both absent or empty it never registers
  anything, and it returns an error exactly when the \<^verbatim>\<open>dft\<close> literal is not empty and
  its coercion to the type of the field fails; the error is that of the coercion.
\<close>

theorem skipped_fields_never_registered:
  "(\<not> IsExported field \<longrightarrow> parseField env r field val = (None, r))
   \<and> (IsExported field \<and> Get (Tag field) ''short'' = [] \<and> Get (Tag field) ''long'' = [] \<longrightarrow>
        snd (parseField env r field val) = r
        \<and> (\<forall>e. fst (parseField env r field val) = Some e \<longleftrightarrow>
              fst (Lookup (Tag field) ''dft'') \<noteq> []
              \<and> parseDefault env (Type field) (fst (Lookup (Tag field) ''dft''))
                   (map stringOfByte (TrimSpace (Get (Tag field) ''sep''))) = Inl e))"
proof (intro conjI impI allI)
  assume "\<not> IsExported field"
  then show "parseField env r field val = (None, r)"
    by (rule parseField_unexported)
next
  assume a: "IsExported field \<and> Get (Tag field) ''short'' = [] \<and> Get (Tag field) ''long'' = []"
  then have short: "length (Get (Tag field) ''short'') \<le> 1"
    by simp
  have unbound: "\<not> fieldBound env field"
  proof (cases "parseTag env field")
    case (Inl err)
    then show ?thesis by (simp add: fieldBound_def)
  next
    case (Inr t)
    with parseTag_Inr_ids [OF short Inr] a show ?thesis
      by (simp add: fieldBound_def)
  qed
  note skip = parseField_unbound [OF unbound, of r val]
  from skip show "snd (parseField env r field val) = r"
    by simp
  fix e
  show "fst (parseField env r field val) = Some e \<longleftrightarrow>
              fst (Lookup (Tag field) ''dft'') \<noteq> []
              \<and> parseDefault env (Type field) (fst (Lookup (Tag field) ''dft''))
                   (map stringOfByte (TrimSpace (Get (Tag field) ''sep''))) = Inl e"
  proof (cases "parseTag env field")
    case (Inl err)
    with a parseTag_Inl_iff [OF short, of env e] show ?thesis
      by (auto simp: skip fieldErr_def)
  next
    case (Inr t)
    with a parseTag_Inl_iff [OF short, of env e] show ?thesis
      by (auto simp: skip fieldErr_def)
  qed
qed

theorem skipped_fields_never_registered_witness:
  "\<not> IsExported fieldU \<and> parseField env0 r0 fieldU (0, 0) = (None, r0)
   \<and> parseField env0 r0 fieldE (0, 1) = (None, r0)
   \<and> parseField env0 r0 fieldD (0, 2) = (Some (NumError ''ParseInt'' ''x'' ErrSyntax), r0)"
proof -
  have u: "\<not> IsExported fieldU"
    by (simp add: fieldU_def)
  have e: "IsExported fieldE \<and> Get (Tag fieldE) ''short'' = [] \<and> Get (Tag fieldE) ''long'' = []"
    and d: "IsExported fieldD \<and> Get (Tag fieldD) ''short'' = [] \<and> Get (Tag fieldD) ''long'' = []"
    by (simp_all add: fieldE_def fieldD_def Get_def)
  have pe: "parseDefault env0 (Type fieldE) (fst (Lookup (Tag fieldE) ''dft''))
      (map stringOfByte (TrimSpace (Get (Tag fieldE) ''sep''))) = Inr (VInt 5)"
    and pd: "parseDefault env0 (Type fieldD) (fst (Lookup (Tag fieldD) ''dft''))
      (map stringOfByte (TrimSpace (Get (Tag fieldD) ''sep''))) = Inl (NumError ''ParseInt'' ''x'' ErrSyntax)"
    and dd: "fst (Lookup (Tag fieldD) ''dft'') \<noteq> []"
    by (simp_all add: fieldE_def fieldD_def Get_def env0_def eval_simps)
  from skipped_fields_never_registered [of fieldU env0 r0 "(0, 0)"] u
  have 1: "parseField env0 r0 fieldU (0, 0) = (None, r0)"
    by blast
  from skipped_fields_never_registered [of fieldE env0 r0 "(0, 1)"] e
  have "snd (parseField env0 r0 fieldE (0, 1)) = r0"
    and "\<forall>x. fst (parseField env0 r0 fieldE (0, 1)) \<noteq> Some x"
    using pe by simp_all
  then have 2: "parseField env0 r0 fieldE (0, 1) = (None, r0)"
    by (cases "parseField env0 r0 fieldE (0, 1)") auto
  from skipped_fields_never_registered [of fieldD env0 r0 "(0, 2)"] d
  have "snd (parseField env0 r0 fieldD (0, 2)) = r0"
    and "fst (parseField env0 r0 fieldD (0, 2)) = Some (NumError ''ParseInt'' ''x'' ErrSyntax)"
    using pd dd by simp_all
  then have 3: "parseField env0 r0 fieldD (0, 2) = (Some (NumError ''ParseInt'' ''x'' ErrSyntax), r0)"
    by (cases "parseField env0 r0 fieldD (0, 2)") auto
  from u 1 2 3 show ?thesis by blast
qed

section \<open>Properties of the resolver\<close>

text \<open>
  C8. Let the middleware be a function without results, of any function type, named or
  not. With no parameter (M0) and with the context as its only parameter (M1-ctx),
  \<open>parseMiddleware\<close> succeeds and leaves the router as it was; with an options record,
  by value or by pointer, as its only parameter (M1-opt) it succeeds exactly when binding
  the record does. In each case running the wrapper on a context, a continuation and a
  program state is the callable applied once (to no argument, to the context, to the
  bound instance) followed by the continuation applied once to the context the wrapper
  received; nothing in the wrapper makes the second call depend on the first. Callables
  are taken to return normally.
\<close>

theorem middleware_without_continuation:
  assumes "TypeOf mw = Some t" and "isFunc t" and "Out t = []"
  shows "(In t = [] \<longrightarrow>
           (\<exists>m. parseMiddleware env r mw = (Inr m, r)
               \<and> (\<forall>ctx handler s. m ctx handler s = handler ctx (Call mw [] s))))
       \<and> (In t = [typContext] \<longrightarrow>
           (\<exists>m. parseMiddleware env r mw = (Inr m, r)
               \<and> (\<forall>ctx handler s. m ctx handler s = handler ctx (Call mw [ACtx ctx] s))))
       \<and> (In t = [a] \<and> (isStruct a \<or> (\<exists>e. underlying a = TPtr e \<and> isStruct e)) \<longrightarrow>
           (\<forall>m r'. parseMiddleware env r mw = (Inr m, r') \<longrightarrow>
              (\<exists>param. parseFuncArgs env r a ''middleware'' = (Inr param, r')
                 \<and> (\<forall>ctx handler s. m ctx handler s = handler ctx (Call mw [AParam param] s))))
           \<and> (\<forall>param r'. parseFuncArgs env r a ''middleware'' = (Inr param, r') \<longrightarrow>
                (\<exists>m. parseMiddleware env r mw = (Inr m, r'))))"
proof (intro conjI impI allI)
  assume "In t = []"
  with func_shape [OF assms(2)] assms(3) have "underlying t = TFunc [] []"
    by simp
  from fast_M0 [OF this, of mw] assms(1)
  have "parseMiddleware env r mw = (Inr (\<lambda>ctx handler. andThen (Call mw []) (handler ctx)), r)"
    by (simp add: parseMiddleware_def)
  then show "\<exists>m. parseMiddleware env r mw = (Inr m, r)
               \<and> (\<forall>ctx handler s. m ctx handler s = handler ctx (Call mw [] s))"
    by (simp add: andThen_def)
next
  assume "In t = [typContext]"
  with func_shape [OF assms(2)] assms(3) have "underlying t = TFunc [typContext] []"
    by simp
  from fast_M1_ctx [OF this, of mw] assms(1)
  have "parseMiddleware env r mw =
      (Inr (\<lambda>ctx handler. andThen (Call mw [ACtx ctx]) (handler ctx)), r)"
    by (simp add: parseMiddleware_def)
  then show "\<exists>m. parseMiddleware env r mw = (Inr m, r)
               \<and> (\<forall>ctx handler s. m ctx handler s = handler ctx (Call mw [ACtx ctx] s))"
    by (simp add: andThen_def)
next
  fix m r'
  assume opt: "In t = [a] \<and> (isStruct a \<or> (\<exists>e. underlying a = TPtr e \<and> isStruct e))"
    and ok: "parseMiddleware env r mw = (Inr m, r')"
  from opt have eq: "parseMiddleware env r mw =
    (case parseFuncArgs env r a ''middleware'' of
       (Inl err, r') \<Rightarrow> (Inl err, r')
     | (Inr param, r') \<Rightarrow>
         (Inr (\<lambda>ctx handler. andThen (Call mw [AParam param]) (handler ctx)), r'))"
    using slow_M1_opt [OF assms, of a env r] by simp
  obtain res r1 where args: "parseFuncArgs env r a ''middleware'' = (res, r1)"
    by (cases "parseFuncArgs env r a ''middleware''")
  show "\<exists>param. parseFuncArgs env r a ''middleware'' = (Inr param, r')
          \<and> (\<forall>ctx handler s. m ctx handler s = handler ctx (Call mw [AParam param] s))"
  proof (cases res)
    case (Inl err)
    with eq ok args show ?thesis by simp
  next
    case (Inr param)
    with eq ok args have "r1 = r'"
      and "m = (\<lambda>ctx handler. andThen (Call mw [AParam param]) (handler ctx))"
      by auto
    with args Inr show ?thesis
      by (intro exI [of _ param]) (simp add: andThen_def)
  qed
next
  fix param r'
  assume opt: "In t = [a] \<and> (isStruct a \<or> (\<exists>e. underlying a = TPtr e \<and> isStruct e))"
    and args: "parseFuncArgs env r a ''middleware'' = (Inr param, r')"
  from opt args show "\<exists>m. parseMiddleware env r mw = (Inr m, r')"
    using slow_M1_opt [OF assms, of a env r] by simp
qed

text \<open>On a log of events: one call of the callable, then one call of the continuation
  with the context 7 that the wrapper was given.\<close>

lemma parseFuncArgs_ptr_A:
  "parseFuncArgs env0 r0 (TPtr (TStruct [fieldA])) ''middleware'' = (Inr (Param 0 True), boundA)"
  by (simp add: parseFuncArgs_def isStruct_def binder_simps eval_simps fieldA_def boundA_def)

theorem middleware_without_continuation_witness:
  "(\<exists>m. parseMiddleware env0 r0 (Any (Some typEmptyFunc) False logCall) = (Inr m, r0)
       \<and> m 7 logNext [] = [Invoked [], Continued 7])
   \<and> (\<exists>m. parseMiddleware env0 r0
             (Any (Some (TNamed ''main.Step'' (TFunc [typContext] []))) False logCall) = (Inr m, r0)
       \<and> m 7 logNext [] = [Invoked [SCtx 7], Continued 7])
   \<and> (\<exists>m. parseMiddleware env0 r0
             (Any (Some (TFunc [TPtr (TStruct [fieldA])] [])) False logCall) = (Inr m, boundA)
       \<and> m 7 logNext [] = [Invoked [SParam (Param 0 True)], Continued 7])"
proof (intro conjI)
  let ?mw = "Any (Some typEmptyFunc) False logCall"
  have "TypeOf ?mw = Some typEmptyFunc" "isFunc typEmptyFunc" "Out typEmptyFunc = []"
    and i: "In typEmptyFunc = []"
    by (simp_all add: typEmptyFunc_def isFunc_def In_def Out_def)
  from middleware_without_continuation [OF this(1-3), THEN conjunct1, rule_format, OF i, of env0 r0]
  obtain m where "parseMiddleware env0 r0 ?mw = (Inr m, r0)"
    "\<forall>ctx handler s. m ctx handler s = handler ctx (Call ?mw [] s)"
    by blast
  then show "\<exists>m. parseMiddleware env0 r0 ?mw = (Inr m, r0)
       \<and> m 7 logNext [] = [Invoked [], Continued 7]"
    by (intro exI [of _ m]) (simp add: logCall_def logNext_def)
next
  let ?t = "TNamed ''main.Step'' (TFunc [typContext] [])"
  let ?mw = "Any (Some ?t) False logCall"
  have "TypeOf ?mw = Some ?t" "isFunc ?t" "Out ?t = []"
    and i: "In ?t = [typContext]"
    by (simp_all add: isFunc_def In_def Out_def)
  from middleware_without_continuation
    [OF this(1-3), THEN conjunct2, THEN conjunct1, rule_format, OF i, of env0 r0]
  obtain m where "parseMiddleware env0 r0 ?mw = (Inr m, r0)"
    "\<forall>ctx handler s. m ctx handler s = handler ctx (Call ?mw [ACtx ctx] s)"
    by blast
  then show "\<exists>m. parseMiddleware env0 r0 ?mw = (Inr m, r0)
       \<and> m 7 logNext [] = [Invoked [SCtx 7], Continued 7]"
    by (intro exI [of _ m]) (simp add: logCall_def logNext_def)
next
  let ?a = "TPtr (TStruct [fieldA])"
  let ?t = "TFunc [?a] []"
  let ?mw = "Any (Some ?t) False logCall"
  have t: "TypeOf ?mw = Some ?t" "isFunc ?t" "Out ?t = []"
    and i: "In ?t = [?a] \<and> (isStruct ?a \<or> (\<exists>e. underlying ?a = TPtr e \<and> isStruct e))"
    by (simp_all add: isFunc_def isStruct_def In_def Out_def)
  note inst = middleware_without_continuation
    [OF t, THEN conjunct2, THEN conjunct2, rule_format, OF i, of env0 r0]
  from inst [THEN conjunct2, rule_format, OF parseFuncArgs_ptr_A]
  obtain m where m: "parseMiddleware env0 r0 ?mw = (Inr m, boundA)"
    by blast
  from inst [THEN conjunct1, rule_format, OF m] parseFuncArgs_ptr_A
  have "\<forall>ctx handler s. m ctx handler s = handler ctx (Call ?mw [AParam (Param 0 True)] s)"
    by auto
  with m show "\<exists>m. parseMiddleware env0 r0 ?mw = (Inr m, boundA)
       \<and> m 7 logNext [] = [Invoked [SParam (Param 0 True)], Continued 7]"
    by (intro exI [of _ m]) (simp add: logCall_def logNext_def)
qed

text \<open>
  C1. The claim does not hold of the code: for a middleware of the shape M2-ctx-opt, a
  function without results whose parameters are the context and an options record (by
  value or by pointer), \<open>parseMiddleware\<close> hands the type of the first parameter, the
  context, to \<open>parseFuncArgs\<close> where the type of the second is meant, and so always
  returns the error that the argument must be a struct; \<^verbatim>\<open>Use\<close> panics with it. No
  wrapper is produced and no record is bound.
\<close>

theorem context_options_middleware_rejected:
  assumes "TypeOf mw = Some t" and "isFunc t" and "Out t = []" and "In t = [typContext, a]"
    and "isStruct a \<or> (\<exists>e. underlying a = TPtr e \<and> isStruct e)"
  shows "parseMiddleware env r mw = (Inl (ArgMustBeStruct ''middleware''), r)
       \<and> Use env r [mw] = (Some (ArgMustBeStruct ''middleware''), r)"
proof -
  have "parseMiddleware env r mw = (Inl (ArgMustBeStruct ''middleware''), r)"
    using slow_M2_ctx_opt [OF assms, of env r]
    by (simp add: parseFuncArgs_context)
  then show ?thesis by simp
qed

text \<open>The record of the example binds without error when it is handed to
  \<open>parseFuncArgs\<close> itself.\<close>

theorem context_options_middleware_rejected_witness:
  "parseMiddleware env0 r0 (Any (Some (TFunc [typContext, TStruct [fieldA]] [])) False logCall)
     = (Inl (ArgMustBeStruct ''middleware''), r0)
   \<and> Use env0 r0 [Any (Some (TFunc [typContext, TPtr (TStruct [fieldA])] [])) False logCall]
     = (Some (ArgMustBeStruct ''middleware''), r0)
   \<and> parseFuncArgs env0 r0 (TStruct [fieldA]) ''middleware'' = (Inr (Param 0 False), boundA)"
proof -
  let ?v = "TFunc [typContext, TStruct [fieldA]] []"
  let ?p = "TFunc [typContext, TPtr (TStruct [fieldA])] []"
  have v: "TypeOf (Any (Some ?v) False logCall) = Some ?v" "isFunc ?v" "Out ?v = []"
    "In ?v = [typContext, TStruct [fieldA]]"
    "isStruct (TStruct [fieldA]) \<or> (\<exists>e. underlying (TStruct [fieldA]) = TPtr e \<and> isStruct e)"
    by (simp_all add: isFunc_def isStruct_def In_def Out_def)
  have p: "TypeOf (Any (Some ?p) False logCall) = Some ?p" "isFunc ?p" "Out ?p = []"
    "In ?p = [typContext, TPtr (TStruct [fieldA])]"
    "isStruct (TPtr (TStruct [fieldA]))
       \<or> (\<exists>e. underlying (TPtr (TStruct [fieldA])) = TPtr e \<and> isStruct e)"
    by (simp_all add: isFunc_def isStruct_def In_def Out_def)
  have bind: "parseFuncArgs env0 r0 (TStruct [fieldA]) ''middleware'' = (Inr (Param 0 False), boundA)"
    by (simp add: parseFuncArgs_def isStruct_def binder_simps eval_simps fieldA_def boundA_def)
  from context_options_middleware_rejected [OF v, of env0 r0]
    context_options_middleware_rejected [OF p, of env0 r0] bind
  show ?thesis by blast
qed

text \<open>
  C3. The claim holds of the code for the two types \<^verbatim>\<open>func(context.Context)\<close> and
  \<^verbatim>\<open>flags.Handler\<close> and a value that is not nil: registration succeeds and the wrapper
  is the callable applied to the context it receives. A nil value of these types is
  handed on to the slow path, which takes the context for an options record and fails.
  For every other function type with that underlying type, a named one, the fast path
  converts the value to \<^verbatim>\<open>func()\<close> instead of \<^verbatim>\<open>flags.Handler\<close>; the conversion
  panics, and so does \<^verbatim>\<open>Handle\<close>.
\<close>

theorem context_handler_registration:
  assumes "TypeOf fn = Some t" and "isFunc t" and "Out t = []" and "In t = [typContext]"
  shows "(t = typHandler \<or> t = typHandlerFunc \<longrightarrow>
            (\<not> IsNil fn \<longrightarrow>
               (\<exists>h. parseFunc env r fn = (Inr h, r) \<and> (\<forall>ctx s. h ctx s = Call fn [ACtx ctx] s)
                   \<and> Handle env r fn = (None, r\<lparr>fs := fsHandle (fs r) h\<rparr>)))
            \<and> (IsNil fn \<longrightarrow>
                 parseFunc env r fn = (Inl (ArgMustBeStruct ''handler''), r)
                 \<and> Handle env r fn = (Some (ArgMustBeStruct ''handler''), r)))
       \<and> (t \<noteq> typHandler \<and> t \<noteq> typHandlerFunc \<longrightarrow>
            (\<exists>msg. parseFunc env r fn = (Inl (RuntimePanic msg), r)
                  \<and> Handle env r fn = (Some (RuntimePanic msg), r)))"
proof (intro conjI impI)
  assume "t = typHandler \<or> t = typHandlerFunc" and "\<not> IsNil fn"
  then have "parseFuncFast fn (Some t) = Inr (Some (\<lambda>ctx. Call fn [ACtx ctx]))"
    by (auto simp: parseFuncFast_def fixed_types)
  with assms(1) have "parseFunc env r fn = (Inr (\<lambda>ctx. Call fn [ACtx ctx]), r)"
    by (simp add: parseFunc_def)
  then show "\<exists>h. parseFunc env r fn = (Inr h, r) \<and> (\<forall>ctx s. h ctx s = Call fn [ACtx ctx] s)
                \<and> Handle env r fn = (None, r\<lparr>fs := fsHandle (fs r) h\<rparr>)"
    by (simp add: Handle_def)
next
  assume "t = typHandler \<or> t = typHandlerFunc" and "IsNil fn"
  then have "parseFuncFast fn (Some t) = Inr None"
    by (auto simp: parseFuncFast_def fixed_types)
  with assms show slow: "parseFunc env r fn = (Inl (ArgMustBeStruct ''handler''), r)"
    by (simp add: parseFunc_def NumIn_def NumOut_def parseFuncArgs_context)
  then show "Handle env r fn = (Some (ArgMustBeStruct ''handler''), r)"
    by (simp add: Handle_def)
next
  assume ne: "t \<noteq> typHandler \<and> t \<noteq> typHandlerFunc"
  from func_shape [OF assms(2)] assms(3,4) have "underlying t = TFunc [typContext] []"
    by simp
  with ne have "parseFuncFast fn (Some t) =
      Inl (RuntimePanic ''reflect.Value.Convert: value cannot be converted to type func()'')"
    by (simp add: fast_handler_named)
  with assms(1) have "parseFunc env r fn =
      (Inl (RuntimePanic ''reflect.Value.Convert: value cannot be converted to type func()''), r)"
    by (simp add: parseFunc_def)
  then show "\<exists>msg. parseFunc env r fn = (Inl (RuntimePanic msg), r)
                  \<and> Handle env r fn = (Some (RuntimePanic msg), r)"
    by (simp add: Handle_def)
qed

theorem context_handler_registration_witness:
  "(\<exists>msg. Handle env0 r0 (Any (Some (TNamed ''main.Hook'' (TFunc [typContext] []))) False logCall)
            = (Some (RuntimePanic msg), r0))
   \<and> (\<exists>h. parseFunc env0 r0 (Any (Some (TFunc [typContext] [])) False logCall) = (Inr h, r0)
         \<and> h 7 [] = [Invoked [SCtx 7]])
   \<and> Handle env0 r0 (Any (Some (TFunc [typContext] [])) True logCall)
        = (Some (ArgMustBeStruct ''handler''), r0)"
proof (intro conjI)
  let ?t = "TNamed ''main.Hook'' (TFunc [typContext] [])"
  have t: "TypeOf (Any (Some ?t) False logCall) = Some ?t" "isFunc ?t" "Out ?t = []" "In ?t = [typContext]"
    and ne: "?t \<noteq> typHandler \<and> ?t \<noteq> typHandlerFunc"
    by (simp_all add: isFunc_def In_def Out_def fixed_types)
  from context_handler_registration [OF t, THEN conjunct2, rule_format, OF ne, of env0 r0]
  show "\<exists>msg. Handle env0 r0 (Any (Some ?t) False logCall) = (Some (RuntimePanic msg), r0)"
    by blast
next
  let ?t = "TFunc [typContext] []"
  have t: "TypeOf (Any (Some ?t) False logCall) = Some ?t" "isFunc ?t" "Out ?t = []" "In ?t = [typContext]"
    and eq: "?t = typHandler \<or> ?t = typHandlerFunc"
    and live: "\<not> IsNil (Any (Some ?t) False logCall)"
    by (simp_all add: isFunc_def In_def Out_def fixed_types)
  from context_handler_registration
      [OF t, THEN conjunct1, rule_format, OF eq, THEN conjunct1, rule_format, OF live, of env0 r0]
  obtain h where "parseFunc env0 r0 (Any (Some ?t) False logCall) = (Inr h, r0)"
    "\<forall>ctx s. h ctx s = Call (Any (Some ?t) False logCall) [ACtx ctx] s"
    by blast
  then show "\<exists>h. parseFunc env0 r0 (Any (Some ?t) False logCall) = (Inr h, r0)
         \<and> h 7 [] = [Invoked [SCtx 7]]"
    by (intro exI [of _ h]) (simp add: logCall_def)
next
  let ?t = "TFunc [typContext] []"
  have t: "TypeOf (Any (Some ?t) True logCall) = Some ?t" "isFunc ?t" "Out ?t = []" "In ?t = [typContext]"
    and eq: "?t = typHandler \<or> ?t = typHandlerFunc"
    and nil: "IsNil (Any (Some ?t) True logCall)"
    by (simp_all add: isFunc_def In_def Out_def fixed_types)
  from context_handler_registration
      [OF t, THEN conjunct1, rule_format, OF eq, THEN conjunct2, rule_format, OF nil, of env0 r0]
  show "Handle env0 r0 (Any (Some ?t) True logCall) = (Some (ArgMustBeStruct ''handler''), r0)"
    by (rule conjunct2)
qed

end
